(* ===== verification/Prelude.thy ===== *)
theory Prelude
  imports Main "HOL-Library.Sublist"
begin

text \<open>
  Shared vocabulary of the flow-to-ts development: the errors a conversion can end in,
  the result type \<open>error + 'a\<close> with its bind, the object identities of AST nodes, the
  console output the code writes, and \<open>filter_logged\<close>, the model of
  \<open>Array.prototype.filter\<close> with a callback that may write to the console (the
  callback of \<open>fixComments\<close> in src/src/convert.js does).  The generic lemmas here
  are declared into the collection \<open>conv_simps\<close> so that the component theories
  can use them with \<open>simp add: conv_simps\<close>.
\<close>

named_theorems conv_simps "evaluation rules shared by the component theories"

subsection \<open>Errors and results\<close>

text \<open>
  Every exception that can leave \<open>convert\<close> is a constructor: \<open>ParseError\<close> of
  the parser, \<open>TypeError\<close> of a property read on \<open>undefined\<close> in the code itself,
  \<open>HandlerError\<close> of a transform handler, \<open>GenerationError\<close> and
  \<open>FormatterError\<close> of the generator and of prettier.
\<close>

datatype error =
    ParseError string
  | TypeError string
  | HandlerError string
  | GenerationError string
  | FormatterError string

type_synonym 'a result = "error + 'a"

definition bind_res :: "'e + 'a \<Rightarrow> ('a \<Rightarrow> 'e + 'b) \<Rightarrow> 'e + 'b" where
  "bind_res r f = (case r of Inl e \<Rightarrow> Inl e | Inr a \<Rightarrow> f a)"

lemma bind_res_Inl [simp, conv_simps]: "bind_res (Inl e) f = Inl e"
  by (simp add: bind_res_def)

lemma bind_res_Inr [simp, conv_simps]: "bind_res (Inr a) f = f a"
  by (simp add: bind_res_def)

lemma bind_res_return [simp, conv_simps]: "bind_res r Inr = r"
  by (cases r) simp_all

lemma bind_res_eq_Inr:
  "bind_res r f = Inr b \<longleftrightarrow> (\<exists>a. r = Inr a \<and> f a = Inr b)"
  by (cases r) simp_all

lemma bind_res_eq_Inl:
  "bind_res r f = Inl e \<longleftrightarrow> r = Inl e \<or> (\<exists>a. r = Inr a \<and> f a = Inl e)"
  by (cases r) simp_all

subsection \<open>Heap identities and console output\<close>

text \<open>
  An AST node is a JavaScript object; the code compares and mutates nodes through
  references.  A node reference is an \<open>nid\<close>, and the heap of nodes a total map
  from references to node values (see the theory \<open>Ast\<close>).
\<close>

type_synonym nid = nat

text \<open>
  What the code prints with \<open>console.log\<close>: the offending node when the
  same-line test of \<open>fixComments\<close> throws (line 44), and the JSON dump of the AST
  when \<open>options.debug\<close> is set (line 78).
\<close>

datatype diag = LogNode nid | DumpAst

subsection \<open>Filtering with a logging callback\<close>

text \<open>
  \<open>xs.filter(cb)\<close> calls \<open>cb\<close> once per element, left to right, keeps the
  elements for which it returns a truthy value, and the callback's console output
  appears in call order.
\<close>

fun filter_logged :: "('a \<Rightarrow> bool \<times> diag list) \<Rightarrow> 'a list \<Rightarrow> 'a list \<times> diag list" where
  "filter_logged p [] = ([], [])"
| "filter_logged p (x # xs) =
     (let (b, l) = p x; (ys, l') = filter_logged p xs
      in (if b then x # ys else ys, l @ l'))"

lemma fst_filter_logged [simp, conv_simps]:
  "fst (filter_logged p xs) = filter (\<lambda>x. fst (p x)) xs"
  by (induction xs) (auto split: prod.splits)

lemma snd_filter_logged [simp, conv_simps]:
  "snd (filter_logged p xs) = concat (map (\<lambda>x. snd (p x)) xs)"
  by (induction xs) (auto split: prod.splits)

lemma filter_logged_eq:
  "filter_logged p xs = (filter (\<lambda>x. fst (p x)) xs, concat (map (\<lambda>x. snd (p x)) xs))"
  by (metis fst_filter_logged snd_filter_logged prod.collapse)

end
