(* ===== verification/JsValue.thy ===== *)
theory JsValue
  imports Prelude
begin

text \<open>
  The JavaScript semantics that src/src/convert.js relies on, as far as the code uses
  it: the decimal printing of a non-negative integer done by the template literal
  \<open>`${start}:${end}`\<close> (line 48), values (\<open>jsval\<close>), truthiness (the tests
  \<open>options && options.debug\<close> and \<open>leading && trailing\<close>), property read,
  \<open>Object.assign\<close> and object spread (lines 69 and 89--93), the conversion
  \<open>ToNumber\<close> done by the comparison \<open>i < state.trailingLines\<close> (line 84), and
  \<open>String.prototype.trim\<close> (line 94).  Objects are association lists in insertion
  order; numbers are integers (the code only stores and compares integral values).
\<close>

subsection \<open>Decimal printing of natural numbers\<close>

text \<open>
  \<open>String(n)\<close> for an integral number \<open>0 \<le> n < 10^21\<close> is its decimal
  representation without leading zeros.  Source offsets are far below that bound.
\<close>

definition digit_char :: "nat \<Rightarrow> char" where
  "digit_char d = char_of (48 + d)"

definition is_digit :: "char \<Rightarrow> bool" where
  "is_digit c \<longleftrightarrow> (48::nat) \<le> of_char c \<and> (of_char c :: nat) < 58"

fun nat_str :: "nat \<Rightarrow> string" where
  "nat_str n = (if n < 10 then [digit_char n] else nat_str (n div 10) @ [digit_char (n mod 10)])"

declare nat_str.simps [simp del]

text \<open>Reading a string of decimal digits back (the inverse used by the round trip).\<close>

definition digits_val :: "string \<Rightarrow> nat" where
  "digits_val s = foldl (\<lambda>acc c. 10 * acc + (of_char c - 48)) 0 s"

definition parse_nat :: "string \<Rightarrow> nat option" where
  "parse_nat s = (if s \<noteq> [] \<and> list_all is_digit s then Some (digits_val s) else None)"

lemma of_char_digit_char [simp]: "d < 10 \<Longrightarrow> of_char (digit_char d) = 48 + d"
  by (simp add: digit_char_def)

lemma is_digit_digit_char [simp]: "d < 10 \<Longrightarrow> is_digit (digit_char d)"
  by (simp add: is_digit_def)

lemma nat_str_nonempty [simp]: "nat_str n \<noteq> []"
  by (subst nat_str.simps) simp

lemma nat_str_digits: "list_all is_digit (nat_str n)"
proof (induction n rule: nat_str.induct)
  case (1 n)
  then show ?case by (subst nat_str.simps) auto
qed

lemma digits_val_snoc [simp]: "digits_val (s @ [c]) = 10 * digits_val s + (of_char c - 48)"
  by (simp add: digits_val_def)

lemma digits_val_nat_str: "digits_val (nat_str n) = n"
proof (induction n rule: nat_str.induct)
  case (1 n)
  show ?case
  proof (cases "n < 10")
    case True
    then show ?thesis by (subst nat_str.simps) (simp add: digits_val_def)
  next
    case False
    with "1.IH" show ?thesis by (subst nat_str.simps) simp
  qed
qed

lemma parse_nat_nat_str [simp]: "parse_nat (nat_str n) = Some n"
  by (simp add: parse_nat_def nat_str_digits digits_val_nat_str)

lemma nat_str_inj: "nat_str m = nat_str n \<longleftrightarrow> m = n"
  by (metis parse_nat_nat_str option.inject)

lemma colon_not_in_nat_str [simp]: "CHR '':'' \<notin> set (nat_str n)"
proof -
  have "\<not> is_digit (CHR '':'')" by (simp add: is_digit_def)
  with nat_str_digits [of n] show ?thesis by (auto simp: list_all_iff)
qed

subsection \<open>Values, truthiness, properties\<close>

datatype jsval =
    JUndef
  | JNull
  | JBool bool
  | JNum int
  | JStr string
  | JObj "(string \<times> jsval) list"

fun truthy :: "jsval \<Rightarrow> bool" where
  "truthy JUndef = False"
| "truthy JNull = False"
| "truthy (JBool b) = b"
| "truthy (JNum n) = (n \<noteq> 0)"
| "truthy (JStr s) = (s \<noteq> [])"
| "truthy (JObj ps) = True"

text \<open>
  \<open>o.k\<close>: the own property of an object, \<open>undefined\<close> when absent.  The code reads
  only the keys \<open>debug\<close>, \<open>prettier\<close> and \<open>prettierOptions\<close>, which no
  prototype of a primitive defines, so a read on a primitive is \<open>undefined\<close>.
  A read on \<open>null\<close> or \<open>undefined\<close> throws in JavaScript; the code guards each
  such read with \<open>options &&\<close>, so the model never takes that case.
\<close>

fun get_prop :: "jsval \<Rightarrow> string \<Rightarrow> jsval" where
  "get_prop (JObj ps) k = (case map_of ps k of Some v \<Rightarrow> v | None \<Rightarrow> JUndef)"
| "get_prop v k = JUndef"

text \<open>
  The own enumerable properties copied by \<open>Object.assign\<close> and by spread: those of
  an object, the indexed characters of a string, none for the other primitives
  (\<open>null\<close> and \<open>undefined\<close> included, which both operations skip).
\<close>

fun own_props :: "jsval \<Rightarrow> (string \<times> jsval) list" where
  "own_props (JObj ps) = ps"
| "own_props (JStr s) = map (\<lambda>(i, ch). (nat_str i, JStr [ch])) (enumerate 0 s)"
| "own_props v = []"

text \<open>
  \<open>o[k] = v\<close> on a plain object: an existing key keeps its position and takes the
  new value, a new key is appended.
\<close>

fun obj_set :: "string \<Rightarrow> jsval \<Rightarrow> (string \<times> jsval) list \<Rightarrow> (string \<times> jsval) list" where
  "obj_set k v [] = [(k, v)]"
| "obj_set k v ((k', v') # ps) = (if k = k' then (k, v) # ps else (k', v') # obj_set k v ps)"

text \<open>
  \<open>Object.assign(target, src)\<close> and \<open>{...target, ...src}\<close>: the properties of
  \<open>src\<close> written into \<open>target\<close> one by one, in order.
\<close>

definition js_assign :: "(string \<times> jsval) list \<Rightarrow> jsval \<Rightarrow> (string \<times> jsval) list" where
  "js_assign tgt src = fold (\<lambda>(k, v). obj_set k v) (own_props src) tgt"

lemma map_of_obj_set [simp, conv_simps]: "map_of (obj_set k v ps) = (map_of ps)(k \<mapsto> v)"
  by (induction ps) (auto simp: fun_eq_iff)

lemma map_of_fold_obj_set:
  "map_of (fold (\<lambda>(k, v). obj_set k v) qs ps) = map_of ps ++ map_of (rev qs)"
proof (induction qs arbitrary: ps)
  case Nil
  then show ?case by simp
next
  case (Cons q qs)
  then show ?case by (cases q) (auto simp: map_add_def fun_eq_iff split: option.splits)
qed

lemma map_of_js_assign [conv_simps]:
  "map_of (js_assign tgt src) = map_of tgt ++ map_of (rev (own_props src))"
  by (simp add: js_assign_def map_of_fold_obj_set)

subsection \<open>String.prototype.trim\<close>

text \<open>
  The white space and line terminators \<open>trim\<close> removes, restricted to the code
  units a \<open>char\<close> holds: tab, line feed, vertical tab, form feed, carriage return,
  space and no-break space.
\<close>

definition js_ws :: "char \<Rightarrow> bool" where
  "js_ws c \<longleftrightarrow> of_char c \<in> {9, 10, 11, 12, 13, 32, 160 :: nat}"

definition js_trim :: "string \<Rightarrow> string" where
  "js_trim s = rev (dropWhile js_ws (rev (dropWhile js_ws s)))"

lemma js_trim_last: "js_trim s \<noteq> [] \<Longrightarrow> \<not> js_ws (last (js_trim s))"
  by (simp add: js_trim_def last_rev hd_dropWhile)

lemma js_trim_hd: "js_trim s \<noteq> [] \<Longrightarrow> \<not> js_ws (hd (js_trim s))"
proof -
  assume ne: "js_trim s \<noteq> []"
  let ?u = "dropWhile js_ws s"
  have d: "dropWhile js_ws (rev ?u) \<noteq> []" using ne by (simp add: js_trim_def)
  then have u: "?u \<noteq> []" by (auto dest: set_dropWhileD)
  then have h: "\<not> js_ws (hd ?u)" by (rule hd_dropWhile)
  have "last (dropWhile js_ws (rev ?u)) = last (rev ?u)"
    using u h by (intro dropWhile_last) (simp_all add: last_rev)
  then have "hd (js_trim s) = hd ?u"
    using d u by (simp add: js_trim_def hd_rev last_rev)
  with h show ?thesis by simp
qed

lemma js_trim_sublist: "sublist (js_trim s) s"
proof -
  have "sublist (dropWhile js_ws (rev (dropWhile js_ws s))) (rev (dropWhile js_ws s))" by simp
  then have "sublist (js_trim s) (dropWhile js_ws s)"
    by (simp add: js_trim_def sublist_rev_left)
  then show ?thesis by (rule sublist_order.order_trans) simp
qed
subsection \<open>ToNumber\<close>

text \<open>
  The number a relational comparison with a number reads from a value; \<open>None\<close> is
  \<open>NaN\<close>, with which every comparison is false.  Numbers are integers: a fractional
  number is not a value of the model.  A string is trimmed as \<open>StringToNumber\<close> does
  (the white space of \<open>trim\<close>); an empty result is 0, and otherwise it is read as a
  decimal literal with an optional sign.  Fractions, exponents, hexadecimal literals
  and \<open>"Infinity"\<close> are not modelled and read as \<open>NaN\<close>.  A plain object reads as
  \<open>NaN\<close> (its primitive value is \<open>"[object Object]"\<close>).
\<close>

fun to_number :: "jsval \<Rightarrow> int option" where
  "to_number JUndef = None"
| "to_number JNull = Some 0"
| "to_number (JBool b) = Some (if b then 1 else 0)"
| "to_number (JNum n) = Some n"
| "to_number (JStr s) =
     (let t = js_trim s in
      if t = [] then Some 0
      else if hd t = CHR ''+'' then map_option int (parse_nat (tl t))
      else if hd t = CHR ''-'' then map_option (\<lambda>n. - int n) (parse_nat (tl t))
      else map_option int (parse_nat t))"
| "to_number (JObj ps) = None"


end
