(* ===== verification/Ast.thy ===== *)
theory Ast
  imports JsValue
begin

text \<open>
  The data the conversion pipeline works on: comment tokens and AST nodes as the
  parser (\<open>@babel/parser\<close>) produces them, the heap of nodes that the traversal
  mutates in place, the range key \<open>"<start>:<end>"\<close> under which a comment is
  filed (src/src/convert.js line 48), and the comment association map
  \<open>commentsToNodesMap\<close> (line 59) from range keys to the nodes that claim the
  comment as leading or trailing.  Only the fields the core reads are kept:
  a node's type, the start line of its location (absent on nodes that handlers
  synthesise), and its comment arrays (absent when \<open>undefined\<close> or \<open>null\<close>).
\<close>

subsection \<open>Comments and nodes\<close>

datatype comment_type = CommentLine | CommentBlock

text \<open>
  A comment token \<open>{type, value, start, end, loc}\<close>: \<open>c_line\<close> is
  \<open>comment.loc.start.line\<close>, \<open>None\<close> when the location is missing, in which case
  reading it throws.
\<close>

record comment =
  c_type :: comment_type
  c_value :: string
  c_start :: nat
  c_end :: nat
  c_line :: "nat option"

record node =
  n_type :: string
  n_line :: "nat option"
  n_leading :: "comment list option"
  n_trailing :: "comment list option"

text \<open>The heap: every node reference denotes a node object.\<close>

type_synonym store = "nid \<Rightarrow> node"

text \<open>The parser's result: the root \<open>File\<close> node, the heap, and \<open>ast.comments\<close>.\<close>

record ast =
  a_root :: nid
  a_store :: store
  a_comments :: "comment list"

text \<open>
  The parser lists comments in source order and their ranges do not overlap; this is
  the property of the parser the uniqueness of range keys rests on.
\<close>

definition comments_wf :: "comment list \<Rightarrow> bool" where
  "comments_wf cs \<longleftrightarrow>
     list_all (\<lambda>c. c_start c < c_end c) cs \<and> sorted_wrt (\<lambda>c d. c_end c \<le> c_start d) cs"

subsection \<open>Range keys\<close>

definition range_key :: "comment \<Rightarrow> string" where
  "range_key c = nat_str (c_start c) @ '':'' @ nat_str (c_end c)"

text \<open>The inverse of \<open>range_key\<close>: split at the first colon and read both numbers.\<close>

definition parse_key :: "string \<Rightarrow> (nat \<times> nat) option" where
  "parse_key k =
     (let a = takeWhile (\<lambda>ch. ch \<noteq> CHR '':'') k; b = drop (Suc (length a)) k
      in if length a = length k then None
         else case (parse_nat a, parse_nat b) of
                (Some x, Some y) \<Rightarrow> Some (x, y)
              | _ \<Rightarrow> None)"

lemma takeWhile_not_colon_nat_str:
  "takeWhile (\<lambda>ch. ch \<noteq> CHR '':'') (nat_str n @ CHR '':'' # s) = nat_str n"
proof -
  have "\<forall>x\<in>set (nat_str n). x \<noteq> CHR '':''"
    using colon_not_in_nat_str [of n] by blast
  then show ?thesis by (simp add: takeWhile_append2)
qed

lemma range_key_eq_iff:
  "range_key c = range_key d \<longleftrightarrow> c_start c = c_start d \<and> c_end c = c_end d"
proof
  assume eq: "range_key c = range_key d"
  then have "takeWhile (\<lambda>ch. ch \<noteq> CHR '':'') (range_key c) = takeWhile (\<lambda>ch. ch \<noteq> CHR '':'') (range_key d)"
    by simp
  then have s: "nat_str (c_start c) = nat_str (c_start d)"
    by (simp add: range_key_def takeWhile_not_colon_nat_str)
  with eq have "nat_str (c_end c) = nat_str (c_end d)"
    by (simp add: range_key_def)
  with s show "c_start c = c_start d \<and> c_end c = c_end d"
    by (simp add: nat_str_inj)
qed (simp add: range_key_def)

subsection \<open>The comment association map\<close>

text \<open>
  The value \<open>{leading, trailing}\<close> filed under a range key; an absent field is
  \<open>undefined\<close>.  The JavaScript \<open>Map\<close> iterates in insertion order, so the map is
  an association list in that order.
\<close>

record assoc =
  leading :: "nid option"
  trailing :: "nid option"

type_synonym cmap = "(string \<times> assoc) list"

subsection \<open>An example heap\<close>

text \<open>
  Statement A (node 1) on line 1 is followed by \<open>// note\<close> on the same line and
  \<open>// next\<close> on line 2; statement B (node 2, and every other reference) is on line 3.
  The parser attaches both comments as trailing to A and as leading to B.
\<close>

definition ex_c1 :: comment where
  "ex_c1 = \<lparr>c_type = CommentLine, c_value = '' note'', c_start = 1, c_end = 2, c_line = Some 1\<rparr>"
definition ex_c2 :: comment where
  "ex_c2 = \<lparr>c_type = CommentLine, c_value = '' next'', c_start = 3, c_end = 4, c_line = Some 2\<rparr>"
definition ex_a :: node where
  "ex_a = \<lparr>n_type = ''ExpressionStatement'', n_line = Some 1, n_leading = None, n_trailing = Some [ex_c1, ex_c2]\<rparr>"
definition ex_b :: node where
  "ex_b = \<lparr>n_type = ''ExpressionStatement'', n_line = Some 3, n_leading = Some [ex_c1, ex_c2], n_trailing = None\<rparr>"
definition ex_heap :: store where
  "ex_heap = (\<lambda>_. ex_b)(1 := ex_a)"
subsection \<open>Properties of range keys\<close>

text \<open>
  \<^bold>\<open>C10.\<close> The range key is a faithful encoding of the comment range: reading it back
  gives the start and end offsets it was printed from.
\<close>

theorem range_key_roundtrip: "parse_key (range_key c) = Some (c_start c, c_end c)"
  by (simp add: parse_key_def range_key_def takeWhile_not_colon_nat_str Let_def)

text \<open>
  \<^bold>\<open>C11.\<close> Range keys are unique for the comments of one parse: comments listed in
  source order with non-empty, non-overlapping ranges have pairwise distinct keys, so
  no two comments share an entry of the association map.
\<close>

theorem range_keys_distinct:
  assumes "comments_wf cs"
  shows "distinct (map range_key cs)"
  using assms
proof (induction cs)
  case Nil
  then show ?case by simp
next
  case (Cons c cs)
  then have wf: "comments_wf cs" and lt: "c_start c < c_end c"
    and before: "\<forall>d \<in> set cs. c_end c \<le> c_start d"
    by (auto simp: comments_wf_def)
  have "range_key c \<notin> range_key ` set cs"
  proof
    assume "range_key c \<in> range_key ` set cs"
    then obtain d where "d \<in> set cs" "c_start d = c_start c"
      by (auto simp: range_key_eq_iff)
    with before lt show False by fastforce
  qed
  with Cons.IH wf show ?case by simp
qed

definition ex_comments :: "comment list" where
  "ex_comments =
     [\<lparr>c_type = CommentLine, c_value = '' a'', c_start = 10, c_end = 15, c_line = Some 1\<rparr>,
      \<lparr>c_type = CommentBlock, c_value = '' b '', c_start = 15, c_end = 22, c_line = Some 1\<rparr>,
      \<lparr>c_type = CommentLine, c_value = '' c'', c_start = 30, c_end = 34, c_line = Some 2\<rparr>]"

theorem range_keys_distinct_witness:
  "comments_wf ex_comments \<and> distinct (map range_key ex_comments)"
proof -
  have wf: "comments_wf ex_comments"
    by (simp add: comments_wf_def ex_comments_def)
  show ?thesis using range_keys_distinct [OF wf] wf by simp
qed

end
