(* ===== verification/Reconciler.thy ===== *)
theory Reconciler
  imports Ast
begin

text \<open>
  The Comment Reconciler, \<open>fixComments\<close> of src/src/convert.js (lines 29--53):
  after the traversal, for every entry of \<open>commentsToNodesMap\<close> that has both a
  leading and a trailing node, the trailing node's \<open>trailingComments\<close> array is
  replaced by its filtered copy.  The callback keeps an end-of-line comment (a line
  comment starting on the node's start line) and otherwise drops exactly the
  comments whose range key is the entry's key.  Nodes are shared: two entries may
  name the same trailing node, and the second filter then sees the first one's
  result, so the heap is threaded through the loop.
\<close>

subsection \<open>The filter callback (lines 35--49)\<close>

text \<open>
  \<open>comment.loc.start.line === trailing.loc.start.line\<close> inside the \<open>try\<close>:
  \<open>None\<close> when either location is missing and the read throws.
\<close>

definition same_line_test :: "comment \<Rightarrow> nat option \<Rightarrow> bool option" where
  "same_line_test c l =
     (case (c_line c, l) of (Some a, Some b) \<Rightarrow> Some (a = b) | _ \<Rightarrow> None)"

text \<open>
  The callback for the entry filed under \<open>key\<close> whose trailing node is \<open>t\<close>, with
  start line \<open>l\<close>: its verdict and what the \<open>catch\<close> branch prints.
\<close>

definition keep_comment :: "string \<Rightarrow> nid \<Rightarrow> nat option \<Rightarrow> comment \<Rightarrow> bool \<times> diag list" where
  "keep_comment key t l c =
     (let (stay, lg) =
        (if c_type c = CommentLine then
           (case same_line_test c l of Some b \<Rightarrow> (b, []) | None \<Rightarrow> (False, [LogNode t]))
         else (False, []))
      in (if stay then True else range_key c \<noteq> key, lg))"

subsection \<open>One map entry (lines 31--51) and the loop (lines 29--53)\<close>

text \<open>
  \<open>trailing.trailingComments.filter\<close> is outside the \<open>try\<close>: when the trailing
  node no longer has a \<open>trailingComments\<close> array the read throws a
  \<open>TypeError\<close> that leaves \<open>fixComments\<close> and \<open>convert\<close>.
\<close>

definition filter_type_error :: error where
  "filter_type_error = TypeError ''Cannot read properties of undefined (reading 'filter')''"

definition fix_entry :: "string \<times> assoc \<Rightarrow> store \<Rightarrow> (store \<times> diag list) result" where
  "fix_entry e h =
     (case e of (key, v) \<Rightarrow>
        (case (leading v, trailing v) of
           (Some _, Some t) \<Rightarrow>
             (case n_trailing (h t) of
                None \<Rightarrow> Inl filter_type_error
              | Some cs \<Rightarrow>
                  (case filter_logged (keep_comment key t (n_line (h t))) cs of
                     (cs', lg) \<Rightarrow> Inr (h(t := (h t)\<lparr>n_trailing := Some cs'\<rparr>), lg)))
         | _ \<Rightarrow> Inr (h, [])))"

fun fix_comments :: "cmap \<Rightarrow> store \<Rightarrow> (store \<times> diag list) result" where
  "fix_comments [] h = Inr (h, [])"
| "fix_comments (e # es) h =
     bind_res (fix_entry e h)
       (\<lambda>(h', l). bind_res (fix_comments es h') (\<lambda>(h'', l'). Inr (h'', l @ l')))"

subsection \<open>Reference definition: what survives, declaratively\<close>

text \<open>
  An entry makes the filter run on node \<open>t\<close> when it has a leading node and its
  trailing node is \<open>t\<close>; the nodes filtered are the targets of the map.
\<close>

definition claims_trailing :: "nid \<Rightarrow> string \<times> assoc \<Rightarrow> bool" where
  "claims_trailing t e \<longleftrightarrow> leading (snd e) \<noteq> None \<and> trailing (snd e) = Some t"

definition targets :: "cmap \<Rightarrow> nid list" where
  "targets m = List.map_filter (\<lambda>e. if leading (snd e) \<noteq> None then trailing (snd e) else None) m"

definition stays_same_line :: "nat option \<Rightarrow> comment \<Rightarrow> bool" where
  "stays_same_line l c \<longleftrightarrow> c_type c = CommentLine \<and> same_line_test c l = Some True"

text \<open>
  A comment of node \<open>t\<close> (start line \<open>l\<close>) survives all entries iff it is an
  end-of-line comment or no entry claiming \<open>t\<close> is filed under its range key.
\<close>

definition keep_one :: "string \<Rightarrow> nat option \<Rightarrow> comment \<Rightarrow> bool" where
  "keep_one k l c \<longleftrightarrow> stays_same_line l c \<or> range_key c \<noteq> k"

definition kept_by :: "cmap \<Rightarrow> nid \<Rightarrow> nat option \<Rightarrow> comment \<Rightarrow> bool" where
  "kept_by m t l c \<longleftrightarrow>
     stays_same_line l c \<or> list_all (\<lambda>e. claims_trailing t e \<longrightarrow> range_key c \<noteq> fst e) m"

definition fix_ok :: "cmap \<Rightarrow> store \<Rightarrow> bool" where
  "fix_ok m h \<longleftrightarrow> list_all (\<lambda>t. n_trailing (h t) \<noteq> None) (targets m)"

text \<open>
  A location anomaly at node \<open>t\<close>: the node has no location, or one of its trailing
  line comments has none; these are the cases in which the \<open>catch\<close> branch prints.
\<close>

definition loc_anomaly :: "store \<Rightarrow> nid \<Rightarrow> bool" where
  "loc_anomaly h t \<longleftrightarrow>
     n_line (h t) = None \<or>
     (case n_trailing (h t) of None \<Rightarrow> False
      | Some cs \<Rightarrow> list_ex (\<lambda>c. c_type c = CommentLine \<and> c_line c = None) cs)"

definition fix_spec :: "cmap \<Rightarrow> store \<Rightarrow> store" where
  "fix_spec m h =
     (\<lambda>t. if t \<in> set (targets m)
          then (h t)\<lparr>n_trailing := map_option (filter (kept_by m t (n_line (h t)))) (n_trailing (h t))\<rparr>
          else h t)"

subsection \<open>Lemmas on the pieces\<close>

lemma keep_comment_fst [simp]:
  "fst (keep_comment k t l c) \<longleftrightarrow> keep_one k l c"
  by (auto simp: keep_comment_def keep_one_def stays_same_line_def split: option.splits)

lemma targets_Cons [simp]:
  "targets (e # es) = (if leading (snd e) \<noteq> None then case trailing (snd e) of None \<Rightarrow> targets es | Some t \<Rightarrow> t # targets es else targets es)"
  by (simp add: targets_def map_filter_simps split: option.splits)

lemma targets_Nil [simp]: "targets [] = []"
  by (simp add: targets_def map_filter_simps)

lemma mem_targets: "t \<in> set (targets m) \<longleftrightarrow> (\<exists>e \<in> set m. claims_trailing t e)"
  by (induction m) (auto simp: claims_trailing_def split: option.splits)

lemma kept_by_Nil [simp]: "kept_by [] t l c"
  by (simp add: kept_by_def)

lemma kept_by_Cons_skip:
  "\<not> claims_trailing t e \<Longrightarrow> kept_by (e # es) t l = kept_by es t l"
  by (auto simp: kept_by_def fun_eq_iff)

lemma kept_by_Cons_claims:
  "claims_trailing t e \<Longrightarrow>
   kept_by (e # es) t l = (\<lambda>c. keep_one (fst e) l c \<and> kept_by es t l c)"
  by (auto simp: kept_by_def keep_one_def fun_eq_iff)

lemma kept_by_not_target:
  "t \<notin> set (targets m) \<Longrightarrow> kept_by m t l c"
  by (auto simp: kept_by_def mem_targets list_all_iff)

lemma fix_entry_skip:
  "\<not> (leading v \<noteq> None \<and> trailing v \<noteq> None) \<Longrightarrow> fix_entry (k, v) h = Inr (h, [])"
  by (auto simp: fix_entry_def split: option.splits)

lemma fix_entry_fail:
  "leading v \<noteq> None \<Longrightarrow> trailing v = Some t \<Longrightarrow> n_trailing (h t) = None \<Longrightarrow>
   fix_entry (k, v) h = Inl filter_type_error"
  by (auto simp: fix_entry_def split: option.splits)

lemma fix_entry_filter:
  "leading v \<noteq> None \<Longrightarrow> trailing v = Some t \<Longrightarrow> n_trailing (h t) = Some cs \<Longrightarrow>
   fix_entry (k, v) h =
     Inr (h(t := (h t)\<lparr>n_trailing := Some (filter (keep_one k (n_line (h t))) cs)\<rparr>),
          concat (map (\<lambda>c. snd (keep_comment k t (n_line (h t)) c)) cs))"
  by (auto simp: fix_entry_def filter_logged_eq split: option.splits)

lemma map_sum_fst_bind_log:
  "map_sum f fst (bind_res r (\<lambda>(h'', l'). Inr (h'', l @ l'))) = map_sum f fst r"
  by (cases r) auto

lemma fix_ok_Cons_skip:
  "\<not> (leading v \<noteq> None \<and> trailing v \<noteq> None) \<Longrightarrow> fix_ok ((k, v) # es) h = fix_ok es h"
  by (auto simp: fix_ok_def split: option.splits)

lemma fix_spec_Cons_skip:
  "\<not> (leading v \<noteq> None \<and> trailing v \<noteq> None) \<Longrightarrow> fix_spec ((k, v) # es) h = fix_spec es h"
  by (auto simp: fix_spec_def kept_by_Cons_skip claims_trailing_def fun_eq_iff split: option.splits)

lemma fix_ok_Cons_filter:
  assumes "leading v \<noteq> None" "trailing v = Some t" "n_trailing (h t) = Some cs"
  shows "fix_ok es (h(t := (h t)\<lparr>n_trailing := Some cs'\<rparr>)) = fix_ok ((k, v) # es) h"
  using assms by (auto simp: fix_ok_def list_all_iff)

lemma fix_spec_Cons_filter:
  assumes "leading v \<noteq> None" "trailing v = Some t" "n_trailing (h t) = Some cs"
  shows "fix_spec es (h(t := (h t)\<lparr>n_trailing := Some (filter (keep_one k (n_line (h t))) cs)\<rparr>)) =
         fix_spec ((k, v) # es) h"
proof
  fix u
  have claims: "claims_trailing t (k, v)"
    using assms by (simp add: claims_trailing_def)
  show "fix_spec es (h(t := (h t)\<lparr>n_trailing := Some (filter (keep_one k (n_line (h t))) cs)\<rparr>)) u =
        fix_spec ((k, v) # es) h u"
  proof (cases "u = t")
    case True
    then show ?thesis
      using assms claims
      by (auto simp: fix_spec_def kept_by_Cons_claims kept_by_not_target conj_commute)
  next
    case False
    then have "\<not> claims_trailing u (k, v)"
      using assms by (simp add: claims_trailing_def)
    with False show ?thesis
      using assms by (auto simp: fix_spec_def kept_by_Cons_skip)
  qed
qed

subsection \<open>The loop computes the reference\<close>

lemma fix_comments_ok:
  "fix_ok m h \<Longrightarrow> \<exists>lg. fix_comments m h = Inr (fix_spec m h, lg)"
proof (induction m arbitrary: h)
  case Nil
  show ?case by (simp add: fix_spec_def)
next
  case (Cons e es)
  obtain k v where e: "e = (k, v)" by (cases e)
  show ?case
  proof (cases "leading v \<noteq> None \<and> trailing v \<noteq> None")
    case False
    with Cons show ?thesis
      by (auto simp: e fix_entry_skip fix_ok_Cons_skip fix_spec_Cons_skip)
  next
    case True
    then obtain t where t: "leading v \<noteq> None" "trailing v = Some t" by auto
    with Cons.prems obtain cs where cs: "n_trailing (h t) = Some cs"
      by (auto simp: e fix_ok_def)
    define h1 where "h1 = h(t := (h t)\<lparr>n_trailing := Some (filter (keep_one k (n_line (h t))) cs)\<rparr>)"
    have "fix_ok es h1"
      using Cons.prems by (simp add: h1_def e fix_ok_Cons_filter [where h = h and t = t and cs = cs and k = k, OF t cs])
    then obtain lg where "fix_comments es h1 = Inr (fix_spec es h1, lg)"
      using Cons.IH by blast
    moreover have "fix_spec es h1 = fix_spec (e # es) h"
      by (simp add: h1_def e fix_spec_Cons_filter [where h = h and t = t and cs = cs, OF t cs])
    ultimately show ?thesis
      by (simp add: e h1_def fix_entry_filter [where h = h and t = t and cs = cs, OF t cs])
  qed
qed

lemma fix_comments_not_ok:
  "\<not> fix_ok m h \<Longrightarrow> fix_comments m h = Inl filter_type_error"
proof (induction m arbitrary: h)
  case Nil
  then show ?case by (simp add: fix_ok_def)
next
  case (Cons e es)
  obtain k v where e: "e = (k, v)" by (cases e)
  show ?case
  proof (cases "leading v \<noteq> None \<and> trailing v \<noteq> None")
    case False
    with Cons show ?thesis
      by (simp add: e fix_entry_skip fix_ok_Cons_skip)
  next
    case True
    then obtain t where t: "leading v \<noteq> None" "trailing v = Some t" by auto
    show ?thesis
    proof (cases "n_trailing (h t)")
      case None
      with t show ?thesis by (simp add: e fix_entry_fail)
    next
      case (Some cs)
      define h1 where "h1 = h(t := (h t)\<lparr>n_trailing := Some (filter (keep_one k (n_line (h t))) cs)\<rparr>)"
      have "\<not> fix_ok es h1"
        using Cons.prems by (simp add: h1_def e fix_ok_Cons_filter [where h = h and t = t and cs = cs and k = k, OF t Some])
      then have "fix_comments es h1 = Inl filter_type_error"
        by (rule Cons.IH)
      then show ?thesis
        by (simp add: e h1_def fix_entry_filter [where h = h and t = t and cs = cs, OF t Some])
    qed
  qed
qed

lemma fix_comments_InrD:
  "fix_comments m h = Inr (h', lg) \<Longrightarrow> fix_ok m h \<and> h' = fix_spec m h"
  by (metis fix_comments_not_ok fix_comments_ok Inr_inject Inr_not_Inl prod.inject)

subsection \<open>Further properties of the pieces\<close>

lemma fix_spec_fields:
  "n_line (fix_spec m h t) = n_line (h t)" "n_leading (fix_spec m h t) = n_leading (h t)"
  "n_type (fix_spec m h t) = n_type (h t)"
  "n_trailing (fix_spec m h t) =
     (if t \<in> set (targets m) then map_option (filter (kept_by m t (n_line (h t)))) (n_trailing (h t))
      else n_trailing (h t))"
  by (simp_all add: fix_spec_def)

lemma fix_ok_fix_spec: "fix_ok m (fix_spec m h) = fix_ok m h"
  by (simp add: fix_ok_def fix_spec_fields list_all_iff)

lemma fix_spec_idem: "fix_spec m (fix_spec m h) = fix_spec m h"
  by (auto simp: fix_spec_def fun_eq_iff option.map_comp o_def)

lemma fix_spec_trailing_None:
  "n_trailing (fix_spec m h t) = None \<longleftrightarrow> n_trailing (h t) = None"
  by (simp add: fix_spec_fields)

lemma not_kept_by:
  "\<not> kept_by m t l c \<longleftrightarrow> \<not> stays_same_line l c \<and> (\<exists>v. (range_key c, v) \<in> set m \<and> leading v \<noteq> None \<and> trailing v = Some t)"
  by (force simp: kept_by_def list_all_iff claims_trailing_def)

lemma fix_spec_keeps_stays:
  "n_trailing (h t) = Some cs \<Longrightarrow> c \<in> set cs \<Longrightarrow> stays_same_line (n_line (h t)) c \<Longrightarrow>
   \<exists>cs'. n_trailing (fix_spec m h t) = Some cs' \<and> c \<in> set cs'"
  by (simp add: fix_spec_fields kept_by_def)

lemma stays_same_lineI:
  "c_type c = CommentLine \<Longrightarrow> c_line c = Some ln \<Longrightarrow> l = Some ln \<Longrightarrow> stays_same_line l c"
  by (simp add: stays_same_line_def same_line_test_def)

lemma keep_comment_log:
  "x \<in> set (snd (keep_comment k t0 l c)) \<Longrightarrow>
   x = LogNode t0 \<and> c_type c = CommentLine \<and> (c_line c = None \<or> l = None)"
  by (auto simp: keep_comment_def same_line_test_def split: if_splits option.splits)

subsection \<open>Examples\<close>

text \<open>
  On the example heap of the theory \<open>Ast\<close> the traversal files both comments under
  statement A (trailing) and statement B (leading).  A second heap has a line comment
  whose location is missing.
\<close>

definition ex_map :: cmap where
  "ex_map = [(range_key ex_c1, \<lparr>leading = Some 2, trailing = Some 1\<rparr>),
             (range_key ex_c2, \<lparr>leading = Some 2, trailing = Some 1\<rparr>)]"

lemma ex_run: "fix_comments ex_map ex_heap = Inr (ex_heap(1 := ex_a\<lparr>n_trailing := Some [ex_c1]\<rparr>), [])"
  by (simp add: ex_map_def ex_heap_def ex_a_def ex_b_def ex_c1_def ex_c2_def fix_entry_def keep_comment_def
      same_line_test_def range_key_def nat_str.simps)

definition ex_c3 :: comment where
  "ex_c3 = \<lparr>c_type = CommentLine, c_value = '' lost loc'', c_start = 5, c_end = 6, c_line = None\<rparr>"
definition ex_heap2 :: store where
  "ex_heap2 = (\<lambda>_. ex_b)(1 := ex_a\<lparr>n_trailing := Some [ex_c3]\<rparr>)"
definition ex_map2 :: cmap where
  "ex_map2 = [(range_key ex_c3, \<lparr>leading = Some 2, trailing = Some 1\<rparr>)]"

lemma ex_run2: "fix_comments ex_map2 ex_heap2 = Inr (ex_heap2(1 := ex_a\<lparr>n_trailing := Some []\<rparr>), [LogNode 1])"
  by (simp add: ex_map2_def ex_heap2_def ex_a_def ex_b_def ex_c3_def fix_entry_def keep_comment_def
      same_line_test_def range_key_def nat_str.simps)

subsection \<open>Properties of fixComments\<close>

text \<open>
  \<^bold>\<open>C1.\<close> \<open>fixComments\<close> computes the reference: it fails with the \<open>TypeError\<close> of reading
  \<open>filter\<close> on a missing array exactly when some node claimed as trailing by an entry with
  a leading node has no \<open>trailingComments\<close> array, and otherwise the heap it leaves is
  \<open>fix_spec\<close>: every such node keeps, in order, exactly its end-of-line comments and
  the comments not filed under the key of an entry claiming it; all other nodes are
  untouched.
\<close>

theorem fix_comments_refines_spec:
  "map_sum id fst (fix_comments m h) =
     (if fix_ok m h then Inr (fix_spec m h) else Inl filter_type_error)"
  by (cases "fix_ok m h") (auto dest: fix_comments_not_ok fix_comments_ok)

text \<open>
  \<^bold>\<open>C2.\<close> An end-of-line comment (a line comment whose start line is the start line of the
  node it trails) is never dropped from the trailing comments of that node.
\<close>

theorem fix_comments_keeps_end_of_line:
  assumes "fix_comments m h = Inr (h', lg)"
    and "n_trailing (h t) = Some cs" and "c \<in> set cs"
    and "c_type c = CommentLine" and "c_line c = Some ln" and "n_line (h t) = Some ln"
  shows "\<exists>cs'. n_trailing (h' t) = Some cs' \<and> c \<in> set cs'"
proof -
  have "h' = fix_spec m h" using fix_comments_InrD [OF assms(1)] by simp
  moreover have "stays_same_line (n_line (h t)) c"
    using assms(4-6) by (rule stays_same_lineI)
  ultimately show ?thesis
    using assms(2,3) fix_spec_keeps_stays by blast
qed

theorem fix_comments_keeps_end_of_line_witness:
  "fix_comments ex_map ex_heap = Inr (ex_heap(1 := ex_a\<lparr>n_trailing := Some [ex_c1]\<rparr>), []) \<and>
   n_trailing (ex_heap 1) = Some [ex_c1, ex_c2] \<and> ex_c1 \<in> set [ex_c1, ex_c2] \<and>
   c_type ex_c1 = CommentLine \<and> c_line ex_c1 = Some 1 \<and> n_line (ex_heap 1) = Some 1 \<and>
   (\<exists>cs'. n_trailing ((ex_heap(1 := ex_a\<lparr>n_trailing := Some [ex_c1]\<rparr>)) 1) = Some cs' \<and> ex_c1 \<in> set cs')"
proof -
  have h: "n_trailing (ex_heap 1) = Some [ex_c1, ex_c2]" "ex_c1 \<in> set [ex_c1, ex_c2]"
    "c_type ex_c1 = CommentLine" "c_line ex_c1 = Some 1" "n_line (ex_heap 1) = Some 1"
    by (simp_all add: ex_heap_def ex_a_def ex_c1_def)
  show ?thesis
    using fix_comments_keeps_end_of_line [OF ex_run h] ex_run h by simp
qed

text \<open>
  \<^bold>\<open>C3.\<close> \<open>fixComments\<close> is idempotent: running it again on the heap it produced succeeds
  and changes nothing.
\<close>

theorem fix_comments_idempotent:
  assumes "fix_comments m h = Inr (h', lg)"
  shows "\<exists>lg'. fix_comments m h' = Inr (h', lg')"
proof -
  from fix_comments_InrD [OF assms] have ok: "fix_ok m h" and h': "h' = fix_spec m h" by simp_all
  then have "fix_ok m h'" by (simp add: fix_ok_fix_spec)
  then obtain lg' where "fix_comments m h' = Inr (fix_spec m h', lg')"
    using fix_comments_ok by blast
  then show ?thesis by (simp add: h' fix_spec_idem)
qed

theorem fix_comments_idempotent_witness:
  "fix_comments ex_map ex_heap = Inr (ex_heap(1 := ex_a\<lparr>n_trailing := Some [ex_c1]\<rparr>), []) \<and>
   (\<exists>lg'. fix_comments ex_map (ex_heap(1 := ex_a\<lparr>n_trailing := Some [ex_c1]\<rparr>)) = Inr (ex_heap(1 := ex_a\<lparr>n_trailing := Some [ex_c1]\<rparr>), lg'))"
  using fix_comments_idempotent [OF ex_run] ex_run by simp

text \<open>
  \<^bold>\<open>C4.\<close> A trailing comment filed under the key of an entry that has a leading node and
  names this node as trailing is removed, unless it is an end-of-line comment.
\<close>

theorem fix_comments_drops_claimed:
  assumes "fix_comments m h = Inr (h', lg)"
    and "(range_key c, v) \<in> set m" and "leading v \<noteq> None" and "trailing v = Some t"
    and "\<not> stays_same_line (n_line (h t)) c"
  shows "\<exists>cs'. n_trailing (h' t) = Some cs' \<and> c \<notin> set cs'"
proof -
  from fix_comments_InrD [OF assms(1)] have ok: "fix_ok m h" and h': "h' = fix_spec m h" by simp_all
  have t: "t \<in> set (targets m)"
    using assms(2-4) by (force simp: mem_targets claims_trailing_def)
  with ok obtain cs where "n_trailing (h t) = Some cs"
    by (auto simp: fix_ok_def list_all_iff)
  moreover have "\<not> kept_by m t (n_line (h t)) c"
    using assms(2-5) not_kept_by by blast
  ultimately show ?thesis
    using t by (simp add: h' fix_spec_fields)
qed

theorem fix_comments_drops_claimed_witness:
  "fix_comments ex_map ex_heap = Inr (ex_heap(1 := ex_a\<lparr>n_trailing := Some [ex_c1]\<rparr>), []) \<and>
   (range_key ex_c2, \<lparr>leading = Some 2, trailing = Some 1\<rparr>) \<in> set ex_map \<and>
   \<not> stays_same_line (n_line (ex_heap 1)) ex_c2 \<and>
   (\<exists>cs'. n_trailing ((ex_heap(1 := ex_a\<lparr>n_trailing := Some [ex_c1]\<rparr>)) 1) = Some cs' \<and> ex_c2 \<notin> set cs')"
proof -
  have h: "(range_key ex_c2, \<lparr>leading = Some 2, trailing = Some 1\<rparr>) \<in> set ex_map"
    "\<not> stays_same_line (n_line (ex_heap 1)) ex_c2"
    by (simp_all add: ex_map_def ex_heap_def ex_a_def ex_c2_def stays_same_line_def same_line_test_def)
  show ?thesis
    using fix_comments_drops_claimed [OF ex_run h(1) _ _ h(2)] ex_run h by simp
qed

text \<open>
  \<^bold>\<open>C5.\<close> Only such comments are removed: a comment that disappears from the trailing
  comments of a node is filed under its own range key in an entry that has a leading
  node and names this node as trailing.
\<close>

theorem fix_comments_only_drops_claimed:
  assumes "fix_comments m h = Inr (h', lg)"
    and "n_trailing (h t) = Some cs" and "c \<in> set cs"
    and "n_trailing (h' t) = Some cs'" and "c \<notin> set cs'"
  shows "\<exists>v. (range_key c, v) \<in> set m \<and> leading v \<noteq> None \<and> trailing v = Some t"
proof -
  from fix_comments_InrD [OF assms(1)] have h': "h' = fix_spec m h" by simp
  have "\<not> kept_by m t (n_line (h t)) c"
    using assms(2-5) by (auto simp: h' fix_spec_fields split: if_splits)
  then show ?thesis by (simp add: not_kept_by)
qed

theorem fix_comments_only_drops_claimed_witness:
  "fix_comments ex_map ex_heap = Inr (ex_heap(1 := ex_a\<lparr>n_trailing := Some [ex_c1]\<rparr>), []) \<and>
   n_trailing (ex_heap 1) = Some [ex_c1, ex_c2] \<and> ex_c2 \<in> set [ex_c1, ex_c2] \<and>
   n_trailing ((ex_heap(1 := ex_a\<lparr>n_trailing := Some [ex_c1]\<rparr>)) 1) = Some [ex_c1] \<and> ex_c2 \<notin> set [ex_c1] \<and>
   (\<exists>v. (range_key ex_c2, v) \<in> set ex_map \<and> leading v \<noteq> None \<and> trailing v = Some 1)"
proof -
  have h: "n_trailing (ex_heap 1) = Some [ex_c1, ex_c2]" "ex_c2 \<in> set [ex_c1, ex_c2]"
    "n_trailing ((ex_heap(1 := ex_a\<lparr>n_trailing := Some [ex_c1]\<rparr>)) 1) = Some [ex_c1]" "ex_c2 \<notin> set [ex_c1]"
    by (simp_all add: ex_heap_def ex_a_def ex_c1_def ex_c2_def)
  show ?thesis
    using fix_comments_only_drops_claimed [OF ex_run h] ex_run h by simp
qed

text \<open>
  \<^bold>\<open>C6.\<close> Filtering preserves order: the trailing comments after \<open>fixComments\<close> are a
  subsequence of those before.
\<close>

theorem fix_comments_subseq:
  assumes "fix_comments m h = Inr (h', lg)" and "n_trailing (h t) = Some cs"
  shows "\<exists>cs'. n_trailing (h' t) = Some cs' \<and> subseq cs' cs"
  using fix_comments_InrD [OF assms(1)] assms(2) by (simp add: fix_spec_fields)

theorem fix_comments_subseq_witness:
  "fix_comments ex_map ex_heap = Inr (ex_heap(1 := ex_a\<lparr>n_trailing := Some [ex_c1]\<rparr>), []) \<and>
   n_trailing (ex_heap 1) = Some [ex_c1, ex_c2] \<and>
   (\<exists>cs'. n_trailing ((ex_heap(1 := ex_a\<lparr>n_trailing := Some [ex_c1]\<rparr>)) 1) = Some cs' \<and> subseq cs' [ex_c1, ex_c2])"
proof -
  have h: "n_trailing (ex_heap 1) = Some [ex_c1, ex_c2]"
    by (simp add: ex_heap_def ex_a_def)
  show ?thesis
    using fix_comments_subseq [OF ex_run h] ex_run h by simp
qed

text \<open>
  \<^bold>\<open>C7.\<close> Frame: \<open>fixComments\<close> changes nothing but \<open>trailingComments\<close>; the type,
  location and leading comments of every node are as before.
\<close>

theorem fix_comments_frame:
  assumes "fix_comments m h = Inr (h', lg)"
  shows "h' t\<lparr>n_trailing := n_trailing (h t)\<rparr> = h t"
  using fix_comments_InrD [OF assms] by (simp add: fix_spec_def)

theorem fix_comments_frame_witness:
  "fix_comments ex_map ex_heap = Inr (ex_heap(1 := ex_a\<lparr>n_trailing := Some [ex_c1]\<rparr>), []) \<and>
   (ex_heap(1 := ex_a\<lparr>n_trailing := Some [ex_c1]\<rparr>)) 1\<lparr>n_trailing := n_trailing (ex_heap 1)\<rparr> = ex_heap 1"
  using fix_comments_frame [OF ex_run, of 1] ex_run by simp

text \<open>
  \<^bold>\<open>C8.\<close> A missing location is not fatal: whenever every node filtered has a
  \<open>trailingComments\<close> array, \<open>fixComments\<close> succeeds even if comments lack a location,
  and a line comment without location is treated as not on the same line and falls
  through to the key test, so it stays iff no entry claiming its node is filed under its
  key.
\<close>

theorem fix_comments_missing_loc:
  assumes "fix_ok m h"
    and "n_trailing (h t) = Some cs" and "c \<in> set cs" and "c_line c = None"
  shows "\<exists>h' lg cs'. fix_comments m h = Inr (h', lg) \<and> n_trailing (h' t) = Some cs' \<and>
           (c \<in> set cs' \<longleftrightarrow> \<not> (\<exists>v. (range_key c, v) \<in> set m \<and> leading v \<noteq> None \<and> trailing v = Some t))"
proof -
  obtain lg where run: "fix_comments m h = Inr (fix_spec m h, lg)"
    using fix_comments_ok [OF assms(1)] by blast
  have "\<not> stays_same_line (n_line (h t)) c"
    using assms(4) by (simp add: stays_same_line_def same_line_test_def)
  then have "kept_by m t (n_line (h t)) c \<longleftrightarrow>
      \<not> (\<exists>v. (range_key c, v) \<in> set m \<and> leading v \<noteq> None \<and> trailing v = Some t)"
    using not_kept_by by blast
  moreover have "t \<notin> set (targets m) \<Longrightarrow>
      \<not> (\<exists>v. (range_key c, v) \<in> set m \<and> leading v \<noteq> None \<and> trailing v = Some t)"
    by (force simp: mem_targets claims_trailing_def)
  ultimately show ?thesis
    using run assms(2,3) by (auto simp: fix_spec_fields)
qed

theorem fix_comments_missing_loc_witness:
  "fix_ok ex_map2 ex_heap2 \<and>
   n_trailing (ex_heap2 1) = Some [ex_c3] \<and> ex_c3 \<in> set [ex_c3] \<and> c_line ex_c3 = None \<and>
   (\<exists>h' lg cs'. fix_comments ex_map2 ex_heap2 = Inr (h', lg) \<and> n_trailing (h' 1) = Some cs' \<and>
      (ex_c3 \<in> set cs' \<longleftrightarrow> \<not> (\<exists>v. (range_key ex_c3, v) \<in> set ex_map2 \<and> leading v \<noteq> None \<and> trailing v = Some 1)))"
proof -
  have ok: "fix_ok ex_map2 ex_heap2"
    by (simp add: fix_ok_def ex_map2_def ex_heap2_def ex_a_def)
  have h: "n_trailing (ex_heap2 1) = Some [ex_c3]" "ex_c3 \<in> set [ex_c3]" "c_line ex_c3 = None"
    by (simp_all add: ex_heap2_def ex_c3_def)
  show ?thesis
    using fix_comments_missing_loc [OF ok h] ok h by blast
qed

text \<open>
  \<^bold>\<open>C9.\<close> The diagnostic is raised only on a location anomaly: every line printed by the
  \<open>catch\<close> branch names a node claimed as trailing whose location, or the location
  of one of whose trailing line comments, is missing.
\<close>

theorem fix_comments_log_sound:
  assumes "fix_comments m h = Inr (h', lg)" and "x \<in> set lg"
  shows "\<exists>t. x = LogNode t \<and> t \<in> set (targets m) \<and> loc_anomaly h t"
  using assms
proof (induction m arbitrary: h h' lg)
  case Nil
  then show ?case by simp
next
  case (Cons e es)
  obtain k v where e: "e = (k, v)" by (cases e)
  show ?case
  proof (cases "leading v \<noteq> None \<and> trailing v \<noteq> None")
    case False
    with Cons.prems obtain lg' where "fix_comments es h = Inr (h', lg')" "x \<in> set lg'"
      by (auto simp: e fix_entry_skip bind_res_eq_Inr)
    with Cons.IH False show ?thesis by (fastforce simp: e)
  next
    case True
    then obtain t0 where t0: "leading v \<noteq> None" "trailing v = Some t0" by auto
    with Cons.prems obtain cs where cs: "n_trailing (h t0) = Some cs"
      by (cases "n_trailing (h t0)") (auto simp: e fix_entry_fail)
    define h1 where "h1 = h(t0 := (h t0)\<lparr>n_trailing := Some (filter (keep_one k (n_line (h t0))) cs)\<rparr>)"
    from Cons.prems obtain lg1 where run1: "fix_comments es h1 = Inr (h', lg1)"
      and x: "x \<in> set (concat (map (\<lambda>c. snd (keep_comment k t0 (n_line (h t0)) c)) cs)) \<or> x \<in> set lg1"
      by (auto simp: e h1_def fix_entry_filter [where h = h and t = t0 and cs = cs, OF t0 cs] bind_res_eq_Inr)
    have tgt: "t0 \<in> set (targets (e # es))" "set (targets es) \<subseteq> set (targets (e # es))"
      using t0 by (auto simp: e)
    show ?thesis
      using x
    proof
      assume "x \<in> set (concat (map (\<lambda>c. snd (keep_comment k t0 (n_line (h t0)) c)) cs))"
      then obtain c where "c \<in> set cs" "x = LogNode t0" "c_type c = CommentLine"
          "c_line c = None \<or> n_line (h t0) = None"
        by (auto dest: keep_comment_log)
      then show ?thesis
        using tgt cs by (auto simp: loc_anomaly_def list_ex_iff)
    next
      assume "x \<in> set lg1"
      then obtain t where "x = LogNode t" "t \<in> set (targets es)" "loc_anomaly h1 t"
        using Cons.IH [OF run1] by blast
      moreover have "loc_anomaly h1 t \<Longrightarrow> loc_anomaly h t"
        using cs by (auto simp: loc_anomaly_def h1_def list_ex_iff split: if_splits)
      ultimately show ?thesis
        using tgt by blast
    qed
  qed
qed

theorem fix_comments_log_sound_witness:
  "fix_comments ex_map2 ex_heap2 = Inr (ex_heap2(1 := ex_a\<lparr>n_trailing := Some []\<rparr>), [LogNode 1]) \<and>
   LogNode 1 \<in> set [LogNode 1] \<and>
   (\<exists>t. LogNode 1 = LogNode t \<and> t \<in> set (targets ex_map2) \<and> loc_anomaly ex_heap2 t)"
  using fix_comments_log_sound [OF ex_run2, of "LogNode 1"] ex_run2 by simp

end
