(* ===== verification/PositionIndex.thy ===== *)
theory PositionIndex
  imports Ast
begin

text \<open>
  The Position Index, \<open>startLineToComments\<close> of src/src/convert.js (lines 61--64):
  a plain object from the start line of each comment of \<open>ast.comments\<close> to the
  comment, filled in list order so that of two comments starting on the same line the
  later one wins.  The loop reads \<open>comment.loc.start.line\<close> outside any \<open>try\<close>,
  so a comment without location makes \<open>convert\<close> throw a \<open>TypeError\<close>.
\<close>

definition index_type_error :: error where
  "index_type_error = TypeError ''Cannot read properties of undefined (reading 'start')''"

fun fill_index :: "(nat \<rightharpoonup> comment) \<Rightarrow> comment list \<Rightarrow> (nat \<rightharpoonup> comment) result" where
  "fill_index m [] = Inr m"
| "fill_index m (c # cs) =
     (case c_line c of
        None \<Rightarrow> Inl index_type_error
      | Some l \<Rightarrow> fill_index (m(l \<mapsto> c)) cs)"

definition build_index :: "comment list \<Rightarrow> (nat \<rightharpoonup> comment) result" where
  "build_index cs = fill_index Map.empty cs"

text \<open>
  The reference: the comment filed under line \<open>l\<close> is the last comment of the list
  that starts on \<open>l\<close>.
\<close>

definition last_on_line :: "comment list \<Rightarrow> nat \<rightharpoonup> comment" where
  "last_on_line cs l =
     (case filter (\<lambda>c. c_line c = Some l) cs of [] \<Rightarrow> None | ds \<Rightarrow> Some (last ds))"

definition all_located :: "comment list \<Rightarrow> bool" where
  "all_located cs \<longleftrightarrow> list_all (\<lambda>c. c_line c \<noteq> None) cs"

lemma last_on_line_Cons:
  "last_on_line (c # cs) l =
     (case last_on_line cs l of None \<Rightarrow> (if c_line c = Some l then Some c else None) | Some d \<Rightarrow> Some d)"
  by (auto simp: last_on_line_def split: list.splits)

lemma fill_index_located:
  "all_located cs \<Longrightarrow> fill_index m cs = Inr (\<lambda>l. case last_on_line cs l of None \<Rightarrow> m l | Some c \<Rightarrow> Some c)"
proof (induction cs arbitrary: m)
  case Nil
  then show ?case by (simp add: last_on_line_def)
next
  case (Cons c cs)
  then obtain l where l: "c_line c = Some l" and rest: "all_located cs"
    by (auto simp: all_located_def)
  have "fill_index (m(l \<mapsto> c)) cs =
      Inr (\<lambda>k. case last_on_line cs k of None \<Rightarrow> (m(l \<mapsto> c)) k | Some d \<Rightarrow> Some d)"
    by (rule Cons.IH [OF rest])
  then show ?case
    by (simp add: l last_on_line_Cons fun_eq_iff split: option.splits)
qed

lemma build_index_located:
  assumes "all_located cs"
  shows "build_index cs = Inr (last_on_line cs)"
proof -
  have "(\<lambda>l. case last_on_line cs l of None \<Rightarrow> None | Some c \<Rightarrow> Some c) = last_on_line cs"
    by (rule ext) (simp split: option.splits)
  then show ?thesis
    unfolding build_index_def using fill_index_located [OF assms, of Map.empty] by simp
qed

lemma fill_index_unlocated:
  "\<not> all_located cs \<Longrightarrow> fill_index m cs = Inl index_type_error"
  by (induction cs arbitrary: m) (auto simp: all_located_def split: option.splits)

lemma build_index_Inr: "build_index cs = Inr idx \<longleftrightarrow> all_located cs \<and> idx = last_on_line cs"
proof (cases "all_located cs")
  case True
  then show ?thesis by (auto simp: build_index_located)
next
  case False
  then show ?thesis by (auto simp: build_index_def fill_index_unlocated)
qed

lemma build_index_Inl: "build_index cs = Inl e \<longleftrightarrow> \<not> all_located cs \<and> e = index_type_error"
proof (cases "all_located cs")
  case True
  then show ?thesis by (auto simp: build_index_located)
next
  case False
  then show ?thesis by (auto simp: build_index_def fill_index_unlocated)
qed

text \<open>
  \<^bold>\<open>C12.\<close> The index is last-write-wins: building it throws the \<open>TypeError\<close> of
  reading \<open>start\<close> exactly when some comment has no location, and otherwise it maps
  every line to the last comment of \<open>ast.comments\<close> that starts on it, and no other
  line.
\<close>

theorem build_index_last_wins:
  "build_index cs = (if all_located cs then Inr (last_on_line cs) else Inl index_type_error)"
proof (cases "all_located cs")
  case True
  then show ?thesis by (simp add: build_index_located)
next
  case False
  then show ?thesis by (simp add: build_index_def fill_index_unlocated)
qed

lemma last_on_line_Some:
  "last_on_line cs l = Some c \<Longrightarrow> c \<in> set cs \<and> c_line c = Some l"
proof -
  assume a: "last_on_line cs l = Some c"
  then obtain ds where ds: "filter (\<lambda>c. c_line c = Some l) cs = ds" "ds \<noteq> []" "c = last ds"
    by (auto simp: last_on_line_def split: list.splits)
  then have "c \<in> set (filter (\<lambda>c. c_line c = Some l) cs)" by simp
  then show ?thesis by simp
qed

lemma last_on_line_None:
  "last_on_line cs l = None \<longleftrightarrow> (\<forall>c \<in> set cs. c_line c \<noteq> Some l)"
proof (cases "filter (\<lambda>c. c_line c = Some l) cs")
  case Nil
  then show ?thesis by (simp add: last_on_line_def filter_empty_conv)
next
  case (Cons d ds)
  then have "d \<in> set (filter (\<lambda>c. c_line c = Some l) cs)" by simp
  then have d: "d \<in> set cs" "c_line d = Some l" by simp_all
  have "last_on_line cs l \<noteq> None"
    using Cons by (simp add: last_on_line_def)
  with d show ?thesis by blast
qed

text \<open>
  \<^bold>\<open>C13.\<close> Every entry of the index is a comment of the parse that starts on the
  line it is filed under, and every line on which some comment starts has an entry.
\<close>

theorem build_index_sound:
  assumes "build_index cs = Inr idx"
  shows "(\<forall>l c. idx l = Some c \<longrightarrow> c \<in> set cs \<and> c_line c = Some l) \<and>
         dom idx = {l. \<exists>c \<in> set cs. c_line c = Some l}"
proof -
  have loc: "all_located cs"
  proof (rule ccontr)
    assume "\<not> all_located cs"
    with assms show False by (simp add: build_index_def fill_index_unlocated)
  qed
  then have idx: "idx = last_on_line cs"
    using assms by (simp add: build_index_located)
  have "dom idx = {l. \<exists>c \<in> set cs. c_line c = Some l}"
    by (simp add: idx dom_def last_on_line_None)
  then show ?thesis
    using last_on_line_Some by (simp add: idx)
qed


theorem build_index_sound_witness:
  "build_index ex_comments = Inr (last_on_line ex_comments) \<and>
   ex_comments ! 1 \<in> set ex_comments \<and> c_line (ex_comments ! 1) = Some 1 \<and>
   dom (last_on_line ex_comments) = {l. \<exists>c \<in> set ex_comments. c_line c = Some l} \<and>
   last_on_line ex_comments 1 = Some (ex_comments ! 1)"
proof -
  have run: "build_index ex_comments = Inr (last_on_line ex_comments)"
    by (rule build_index_located) (simp add: all_located_def ex_comments_def)
  have one: "last_on_line ex_comments 1 = Some (ex_comments ! 1)"
    by (simp add: ex_comments_def last_on_line_def)
  show ?thesis
    using build_index_sound [OF run] run one by blast
qed

end
