(* ===== verification/Output.thy ===== *)
theory Output
  imports Ast
begin

text \<open>
  The last two stages of \<open>convert\<close> in src/src/convert.js.  The Text Regenerator
  (lines 83--86) calls the generator (\<open>@babel/generator\<close>, a parameter here) and
  appends one newline per iteration of \<open>for (let i = 0; i < state.trailingLines; i++)\<close>;
  the comparison converts \<open>state.trailingLines\<close> with \<open>ToNumber\<close>, so an
  \<open>undefined\<close> count (no handler set it) appends nothing.  The Formatter Adapter
  (lines 88--97) runs prettier (a parameter) with the options
  \<open>{parser: "typescript", plugins, ...options.prettierOptions}\<close> and trims its
  result when \<open>options && options.prettier\<close> holds, and returns the text unchanged
  otherwise.
\<close>

subsection \<open>Text Regenerator\<close>

text \<open>The loop, with the counter \<open>i\<close> and the string it appends to.\<close>

function append_newlines :: "int \<Rightarrow> jsval \<Rightarrow> string \<Rightarrow> string" where
  "append_newlines i lns code =
     (case to_number lns of
        Some n \<Rightarrow> if i < n then append_newlines (i + 1) lns (code @ [CHR ''\<newline>'']) else code
      | None \<Rightarrow> code)"
  by pat_completeness auto
termination
  by (relation "measure (\<lambda>(i, lns, code). case to_number lns of Some n \<Rightarrow> nat (n - i) | None \<Rightarrow> 0)")
     auto

declare append_newlines.simps [simp del]

text \<open>The number of iterations the loop makes from \<open>i = 0\<close>.\<close>

definition trailing_count :: "jsval \<Rightarrow> nat" where
  "trailing_count lns = (case to_number lns of Some n \<Rightarrow> nat n | None \<Rightarrow> 0)"

type_synonym generator = "store \<Rightarrow> nid \<Rightarrow> string \<Rightarrow> string result"

definition regenerate :: "generator \<Rightarrow> store \<Rightarrow> nid \<Rightarrow> string \<Rightarrow> jsval \<Rightarrow> string result" where
  "regenerate generate h root flowCode lns =
     bind_res (generate h root flowCode) (\<lambda>code. Inr (append_newlines 0 lns code))"

subsection \<open>Formatter Adapter\<close>

text \<open>
  The plugin list \<open>[require("prettier/parser-typescript.js")]\<close>, an array holding the
  plugin module, which the model names by its path.
\<close>

definition prettier_plugins :: jsval where
  "prettier_plugins = JObj [(''0'', JStr ''prettier/parser-typescript.js'')]"

definition prettier_options :: "jsval \<Rightarrow> (string \<times> jsval) list" where
  "prettier_options options =
     js_assign [(''parser'', JStr ''typescript''), (''plugins'', prettier_plugins)]
       (get_prop options ''prettierOptions'')"

type_synonym formatter = "string \<Rightarrow> (string \<times> jsval) list \<Rightarrow> string result"

definition format_output :: "formatter \<Rightarrow> jsval \<Rightarrow> string \<Rightarrow> string result" where
  "format_output format options tsCode =
     (if truthy options \<and> truthy (get_prop options ''prettier'')
      then bind_res (format tsCode (prettier_options options)) (\<lambda>out. Inr (js_trim out))
      else Inr tsCode)"

subsection \<open>Lemmas\<close>

lemma append_newlines_eq:
  "append_newlines i lns code =
     code @ replicate (case to_number lns of Some n \<Rightarrow> nat (n - i) | None \<Rightarrow> 0) CHR ''\<newline>''"
proof (induction i lns code rule: append_newlines.induct)
  case (1 i lns code)
  show ?case
  proof (cases "to_number lns")
    case None
    then show ?thesis by (simp add: append_newlines.simps [of i lns code])
  next
    case (Some n)
    show ?thesis
    proof (cases "i < n")
      case True
      then have "nat (n - i) = Suc (nat (n - (i + 1)))" by simp
      with "1.IH" Some True show ?thesis
        by (simp add: append_newlines.simps [of i lns code] replicate_app_Cons_same)
    next
      case False
      with Some show ?thesis by (simp add: append_newlines.simps [of i lns code])
    qed
  qed
qed


lemma format_output_on:
  "truthy options \<and> truthy (get_prop options ''prettier'') \<Longrightarrow>
   format_output format options tsCode =
     bind_res (format tsCode (prettier_options options)) (\<lambda>out. Inr (js_trim out))"
  by (simp add: format_output_def)

lemma format_output_off:
  "\<not> (truthy options \<and> truthy (get_prop options ''prettier'')) \<Longrightarrow>
   format_output format options tsCode = Inr tsCode"
  unfolding format_output_def by (simp only: if_False)

subsection \<open>Properties\<close>

text \<open>
  \<^bold>\<open>C14.\<close> The trailing-lines loop terminates and appends exactly
  \<open>trailing_count (state.trailingLines)\<close> newlines: as many as the number it holds
  when that is a non-negative integer, none when it is \<open>undefined\<close> or negative.
\<close>

theorem append_newlines_closed_form:
  "append_newlines 0 lns code = code @ replicate (trailing_count lns) CHR ''\<newline>''"
  by (simp add: append_newlines_eq trailing_count_def split: option.splits)

text \<open>
  \<^bold>\<open>C15.\<close> Caller options win over the formatter defaults: an option given in
  \<open>options.prettierOptions\<close> is passed to prettier as given, and only the keys the
  caller leaves out take the defaults \<open>parser: "typescript"\<close> and the plugin list.
\<close>

theorem prettier_options_caller_wins:
  "map_of (prettier_options options) k =
     (case map_of (rev (own_props (get_prop options ''prettierOptions''))) k of
        Some v \<Rightarrow> Some v
      | None \<Rightarrow> map_of [(''parser'', JStr ''typescript''), (''plugins'', prettier_plugins)] k)"
  by (simp add: prettier_options_def map_of_js_assign map_add_def split: option.splits)

text \<open>
  \<^bold>\<open>C16.\<close> When formatting is requested, the result is the formatter output with
  surrounding white space removed: a contiguous part of it that neither starts nor
  ends with white space.
\<close>

theorem format_output_trimmed:
  assumes "format_output format options tsCode = Inr out"
    and "truthy options" and "truthy (get_prop options ''prettier'')"
  shows "\<exists>raw. format tsCode (prettier_options options) = Inr raw \<and> sublist out raw \<and>
           (out = [] \<or> \<not> js_ws (hd out) \<and> \<not> js_ws (last out))"
proof -
  from assms obtain raw where raw: "format tsCode (prettier_options options) = Inr raw"
    and out: "out = js_trim raw"
    by (auto simp: format_output_on bind_res_eq_Inr)
  show ?thesis
    using raw out js_trim_sublist js_trim_hd js_trim_last by blast
qed

definition ex_format :: formatter where
  "ex_format code opts = Inr ('' '' @ code @ ''\<newline>'')"

definition ex_options :: jsval where
  "ex_options = JObj [(''prettier'', JBool True), (''prettierOptions'', JObj [(''tabWidth'', JNum 4)])]"

theorem format_output_trimmed_witness:
  "format_output ex_format ex_options ''x;'' = Inr ''x;'' \<and>
   truthy ex_options \<and> truthy (get_prop ex_options ''prettier'') \<and>
   (\<exists>raw. ex_format ''x;'' (prettier_options ex_options) = Inr raw \<and> sublist ''x;'' raw) \<and>
   \<not> js_ws (hd ''x;'') \<and> \<not> js_ws (last ''x;'')"
proof -
  have on: "truthy ex_options" "truthy (get_prop ex_options ''prettier'')"
    by (simp_all add: ex_options_def)
  have run: "format_output ex_format ex_options ''x;'' = Inr ''x;''"
    by (simp add: format_output_def ex_options_def ex_format_def js_trim_def js_ws_def)
  show ?thesis
    using format_output_trimmed [OF run on] run on by auto
qed

end
