(* ===== verification/Driver.thy ===== *)
theory Driver
  imports Ast
begin

text \<open>
  The Rewrite Driver: \<open>traverse(ast, transform, null, state)\<close> at line 73 of
  src/src/convert.js, with the conversion state it threads through the walk (lines
  59--72).  The walker (a vendored \<open>babel-traverse\<close>) and the handler catalog
  (\<open>transform.js\<close>) are not under src/, so their part is modelled from the
  specification (section 4.2): on visiting a node the driver files each of its leading
  and trailing comments in \<open>commentsToNodesMap\<close> under the comment's range key,
  setting \<open>leading\<close> or \<open>trailing\<close> to the node; handlers rewrite nodes in the
  heap, add to \<open>usedUtilityTypes\<close>, set \<open>trailingLines\<close>, or throw.  A walk is a
  sequence of such events; which sequence a given AST produces is the walker's
  business, so the properties hold for every sequence, subject to the handler contract
  that comments are never created (a rewritten node carries only comments of the
  parse).
\<close>

subsection \<open>The conversion state (lines 59--72)\<close>

text \<open>
  \<open>usedUtilityTypes\<close> is a \<open>Set\<close> (a duplicate-free list in insertion order);
  \<open>options\<close> is \<open>Object.assign({inlineUtilityTypes: false}, options)\<close>;
  \<open>trailingLines\<close> is not set by \<open>convert\<close> and reads \<open>undefined\<close> until a
  handler sets it.  The local variables \<open>commentsToNodesMap\<close> and
  \<open>startLineToComments\<close> denote the same objects as the state's fields, which
  handlers mutate and never rebind, so the model keeps one copy, in the state.
\<close>

record conv_state =
  usedUtilityTypes :: "string list"
  options :: "(string \<times> jsval) list"
  commentsToNodesMap :: cmap
  startLineToComments :: "nat \<rightharpoonup> comment"
  trailingLines :: jsval

definition init_state :: "jsval \<Rightarrow> (nat \<rightharpoonup> comment) \<Rightarrow> conv_state" where
  "init_state opts idx =
     \<lparr>usedUtilityTypes = [],
      options = js_assign [(''inlineUtilityTypes'', JBool False)] opts,
      commentsToNodesMap = [],
      startLineToComments = idx,
      trailingLines = JUndef\<rparr>"

subsection \<open>Recording comment associations\<close>

text \<open>
  \<open>map.set(key, {...map.get(key), field: node})\<close>: an existing key keeps its place
  in the iteration order, a new key is appended with the other field \<open>undefined\<close>.
\<close>

fun map_upd :: "string \<Rightarrow> (assoc \<Rightarrow> assoc) \<Rightarrow> cmap \<Rightarrow> cmap" where
  "map_upd k f [] = [(k, f \<lparr>leading = None, trailing = None\<rparr>)]"
| "map_upd k f ((k', v) # m) = (if k = k' then (k', f v) # m else (k', v) # map_upd k f m)"

definition record_leading :: "nid \<Rightarrow> comment \<Rightarrow> cmap \<Rightarrow> cmap" where
  "record_leading n c m = map_upd (range_key c) (\<lambda>v. v\<lparr>leading := Some n\<rparr>) m"

definition record_trailing :: "nid \<Rightarrow> comment \<Rightarrow> cmap \<Rightarrow> cmap" where
  "record_trailing n c m = map_upd (range_key c) (\<lambda>v. v\<lparr>trailing := Some n\<rparr>) m"

definition comments_of :: "comment list option \<Rightarrow> comment list" where
  "comments_of cs = (case cs of None \<Rightarrow> [] | Some xs \<Rightarrow> xs)"

definition record_node :: "store \<Rightarrow> nid \<Rightarrow> cmap \<Rightarrow> cmap" where
  "record_node h n m =
     fold (record_trailing n) (comments_of (n_trailing (h n)))
       (fold (record_leading n) (comments_of (n_leading (h n))) m)"

subsection \<open>Steps of the walk\<close>

datatype event =
    Visit nid
  | Rewrite nid node
  | UseUtilityType string
  | SetTrailingLines jsval
  | Fail string

text \<open>\<open>Set.prototype.add\<close>: a present element leaves the set as it is.\<close>

definition set_add :: "string \<Rightarrow> string list \<Rightarrow> string list" where
  "set_add u us = (if u \<in> set us then us else us @ [u])"

fun driver_step :: "event \<Rightarrow> store \<times> conv_state \<Rightarrow> (store \<times> conv_state) result" where
  "driver_step (Visit n) (h, st) =
     Inr (h, st\<lparr>commentsToNodesMap := record_node h n (commentsToNodesMap st)\<rparr>)"
| "driver_step (Rewrite n nd) (h, st) = Inr (h(n := nd), st)"
| "driver_step (UseUtilityType u) (h, st) =
     Inr (h, st\<lparr>usedUtilityTypes := set_add u (usedUtilityTypes st)\<rparr>)"
| "driver_step (SetTrailingLines v) (h, st) = Inr (h, st\<lparr>trailingLines := v\<rparr>)"
| "driver_step (Fail msg) s = Inl (HandlerError msg)"

fun run_driver :: "event list \<Rightarrow> store \<times> conv_state \<Rightarrow> (store \<times> conv_state) result" where
  "run_driver [] s = Inr s"
| "run_driver (e # es) s = bind_res (driver_step e s) (run_driver es)"

text \<open>
  The handler contract: a rewritten node carries only comments of the parse.  The
  comments of a heap are those of its nodes.
\<close>

definition node_comments :: "node \<Rightarrow> comment list" where
  "node_comments nd = comments_of (n_leading nd) @ comments_of (n_trailing nd)"

fun event_ok :: "comment list \<Rightarrow> event \<Rightarrow> bool" where
  "event_ok cs (Rewrite n nd) = (set (node_comments nd) \<subseteq> set cs)"
| "event_ok cs e = True"

definition heap_comments_ok :: "comment list \<Rightarrow> store \<Rightarrow> bool" where
  "heap_comments_ok cs h \<longleftrightarrow> (\<forall>n. set (node_comments (h n)) \<subseteq> set cs)"

text \<open>
  A second handler contract, the one the Reconciler relies on: a rewrite never removes
  the \<open>trailingComments\<close> array of a node that has one.  The heap a walk passes
  through is threaded along the events.
\<close>

fun arrays_kept :: "event list \<Rightarrow> store \<Rightarrow> bool" where
  "arrays_kept [] h = True"
| "arrays_kept (Rewrite n nd # es) h =
     ((n_trailing (h n) \<noteq> None \<longrightarrow> n_trailing nd \<noteq> None) \<and> arrays_kept es (h(n := nd)))"
| "arrays_kept (e # es) h = arrays_kept es h"

text \<open>Every node filed as trailing has a \<open>trailingComments\<close> array.\<close>

definition trailing_arrays :: "cmap \<Rightarrow> store \<Rightarrow> bool" where
  "trailing_arrays m h \<longleftrightarrow> list_all (\<lambda>e. case trailing (snd e) of None \<Rightarrow> True | Some t \<Rightarrow> n_trailing (h t) \<noteq> None) m"

subsection \<open>Lemmas on the heap and the map\<close>

lemma heap_comments_ok_upd:
  "heap_comments_ok cs h \<Longrightarrow> set (node_comments nd) \<subseteq> set cs \<Longrightarrow> heap_comments_ok cs (h(n := nd))"
  by (simp add: heap_comments_ok_def)

lemma trailing_arrays_map_upd:
  assumes "trailing_arrays m h" and "n_trailing (h tgt) \<noteq> None"
    and "\<And>v. trailing (f v) = trailing v \<or> trailing (f v) = Some tgt"
  shows "trailing_arrays (map_upd k f m) h"
  using assms(1)
proof (induction m)
  case Nil
  have "trailing (f \<lparr>leading = None, trailing = None\<rparr>) = None \<or>
        trailing (f \<lparr>leading = None, trailing = None\<rparr>) = Some tgt"
    using assms(3) [of "\<lparr>leading = None, trailing = None\<rparr>"] by simp
  then show ?case using assms(2) by (auto simp: trailing_arrays_def)
next
  case (Cons p m)
  obtain k' v where p: "p = (k', v)" by (cases p)
  from Cons.prems have hd: "case trailing v of None \<Rightarrow> True | Some t \<Rightarrow> n_trailing (h t) \<noteq> None"
    and tl: "trailing_arrays m h"
    by (simp_all add: p trailing_arrays_def)
  have "case trailing (f v) of None \<Rightarrow> True | Some t \<Rightarrow> n_trailing (h t) \<noteq> None"
    using assms(3) [of v] hd assms(2) by auto
  with hd tl Cons.IH show ?case
    by (simp add: p trailing_arrays_def)
qed

lemma trailing_arrays_record_node:
  assumes "trailing_arrays m h"
  shows "trailing_arrays (record_node h n m) h"
proof -
  have lead: "trailing_arrays (fold (record_leading n) cs m') h" if "trailing_arrays m' h" for cs m'
    using that
  proof (induction cs arbitrary: m')
    case (Cons c cs)
    have "trailing_arrays (record_leading n c m') h"
      unfolding record_leading_def
    proof (cases "n_trailing (h n)")
      case None
      have "trailing_arrays (map_upd k (\<lambda>v. v\<lparr>leading := Some n\<rparr>) m'') h"
        if "trailing_arrays m'' h" for k m''
        using that by (induction m'') (auto simp: trailing_arrays_def)
      then show "trailing_arrays (map_upd (range_key c) (\<lambda>v. v\<lparr>leading := Some n\<rparr>) m') h"
        using Cons.prems by blast
    next
      case (Some cs')
      show "trailing_arrays (map_upd (range_key c) (\<lambda>v. v\<lparr>leading := Some n\<rparr>) m') h"
        by (rule trailing_arrays_map_upd [where tgt = n]) (simp_all add: Cons.prems Some)
    qed
    then show ?case by (simp add: Cons.IH)
  qed simp
  have trail: "trailing_arrays (fold (record_trailing n) cs m') h"
    if "trailing_arrays m' h" "cs \<noteq> [] \<Longrightarrow> n_trailing (h n) \<noteq> None" for cs m'
    using that
  proof (induction cs arbitrary: m')
    case (Cons c cs)
    have "trailing_arrays (record_trailing n c m') h"
      unfolding record_trailing_def
      by (rule trailing_arrays_map_upd [where tgt = n]) (simp_all add: Cons.prems)
    moreover have "n_trailing (h n) \<noteq> None" using Cons.prems(2) by simp
    ultimately show ?case by (simp add: Cons.IH)
  qed simp
  show ?thesis
    unfolding record_node_def
    by (rule trail, rule lead [OF assms]) (auto simp: comments_of_def split: option.splits)
qed

lemma run_driver_trailing_arrays:
  "run_driver es (h, st) = Inr (h', st') \<Longrightarrow> arrays_kept es h \<Longrightarrow>
   trailing_arrays (commentsToNodesMap st) h \<Longrightarrow> trailing_arrays (commentsToNodesMap st') h'"
proof (induction es arbitrary: h st)
  case Nil
  then show ?case by simp
next
  case (Cons e es)
  show ?case
  proof (cases e)
    case (Visit n)
    have "trailing_arrays (record_node h n (commentsToNodesMap st)) h"
      using Cons.prems(3) by (rule trailing_arrays_record_node)
    then show ?thesis
      using Cons.prems(1,2) Visit Cons.IH [of h "st\<lparr>commentsToNodesMap := record_node h n (commentsToNodesMap st)\<rparr>"]
      by simp
  next
    case (Rewrite n nd)
    with Cons.prems have ok: "n_trailing (h n) \<noteq> None \<longrightarrow> n_trailing nd \<noteq> None"
      and rest: "arrays_kept es (h(n := nd))" and run: "run_driver es (h(n := nd), st) = Inr (h', st')"
      by simp_all
    have "trailing_arrays (commentsToNodesMap st) (h(n := nd))"
      using Cons.prems(3) ok by (auto simp: trailing_arrays_def list_all_iff split: option.splits)
    with run rest show ?thesis by (rule Cons.IH)
  next
    case (UseUtilityType u)
    with Cons show ?thesis by auto
  next
    case (SetTrailingLines v)
    with Cons show ?thesis by auto
  next
    case (Fail msg)
    with Cons.prems show ?thesis by simp
  qed
qed

subsection \<open>Examples\<close>

text \<open>
  A walk over the example heap: visit statement A, then statement B, register the utility
  type \<open>$Keys\<close> twice, and record two trailing blank lines.
\<close>

definition ex_walk :: "event list" where
  "ex_walk = [Visit 1, Visit 2, UseUtilityType ''$Keys'', UseUtilityType ''$Keys'', SetTrailingLines (JNum 2)]"

definition ex_walk_state :: conv_state where
  "ex_walk_state =
     \<lparr>usedUtilityTypes = [''$Keys''],
      options = [(''inlineUtilityTypes'', JBool False)],
      commentsToNodesMap =
        [(range_key ex_c1, \<lparr>leading = Some 2, trailing = Some 1\<rparr>),
         (range_key ex_c2, \<lparr>leading = Some 2, trailing = Some 1\<rparr>)],
      startLineToComments = Map.empty,
      trailingLines = JNum 2\<rparr>"

lemma ex_walk_run: "run_driver ex_walk (ex_heap, init_state JUndef Map.empty) = Inr (ex_heap, ex_walk_state)"
  by (simp add: ex_walk_def ex_walk_state_def init_state_def js_assign_def record_node_def
      record_leading_def record_trailing_def comments_of_def set_add_def ex_heap_def ex_a_def ex_b_def
      range_key_eq_iff ex_c1_def ex_c2_def)

lemma ex_heap_comments_ok: "heap_comments_ok [ex_c1, ex_c2] ex_heap"
  by (auto simp: heap_comments_ok_def ex_heap_def ex_a_def ex_b_def node_comments_def comments_of_def)

end
