(* ===== verification/Preservation.thy ===== *)
theory Preservation
  imports Driver Reconciler
begin

text \<open>
  Comment preservation across the walk and the Reconciler (src/src/convert.js lines 73
  and 75).  The Reconciler drops a trailing comment filed under an entry with a
  leading node, deferring to that leading node (specification section 4.3: "the
  leading association ... remains on node A").  Whether the comment then still appears
  in the AST depends on the leading node still carrying it: the code does not check.
  This theory states the handler contract that makes the deferral sound, shows that
  every walk that keeps it ends in a map whose leading nodes still carry their
  comments, and that under it \<open>fixComments\<close> loses no comment of the AST; and it
  exhibits a walk breaking the contract after which \<open>fixComments\<close> removes a comment
  from the whole AST.
\<close>

subsection \<open>The contract and the invariant\<close>

text \<open>
  The handler contract: a rewrite keeps every leading comment of the node it
  replaces.  Like \<open>arrays_kept\<close>, it is read along the heaps the walk passes
  through.
\<close>

fun leading_kept :: "event list \<Rightarrow> store \<Rightarrow> bool" where
  "leading_kept [] h = True"
| "leading_kept (Rewrite n nd # es) h =
     (set (comments_of (n_leading (h n))) \<subseteq> set (comments_of (n_leading nd)) \<and>
      leading_kept es (h(n := nd)))"
| "leading_kept (e # es) h = leading_kept es h"

text \<open>Every leading node of the map still carries a comment with the entry's key.\<close>

definition leading_accurate :: "cmap \<Rightarrow> store \<Rightarrow> bool" where
  "leading_accurate m h \<longleftrightarrow>
     list_all (\<lambda>e. case leading (snd e) of None \<Rightarrow> True
                    | Some l \<Rightarrow> (\<exists>c \<in> set (comments_of (n_leading (h l))). range_key c = fst e)) m"

definition carries_key :: "store \<Rightarrow> string \<Rightarrow> nid option \<Rightarrow> bool" where
  "carries_key h k lo \<longleftrightarrow>
     (case lo of None \<Rightarrow> True | Some l \<Rightarrow> (\<exists>c \<in> set (comments_of (n_leading (h l))). range_key c = k))"

lemma leading_accurate_alt:
  "leading_accurate m h \<longleftrightarrow> (\<forall>(k, v) \<in> set m. carries_key h k (leading v))"
  by (simp add: leading_accurate_def carries_key_def list_all_iff case_prod_unfold)

lemma leading_accurate_map_upd:
  assumes "leading_accurate m h"
    and "\<And>v. carries_key h k (leading v) \<Longrightarrow> carries_key h k (leading (f v))"
  shows "leading_accurate (map_upd k f m) h"
  using assms(1)
proof (induction m)
  case Nil
  then show ?case
    using assms(2) [of "\<lparr>leading = None, trailing = None\<rparr>"]
    by (simp add: leading_accurate_alt carries_key_def)
next
  case (Cons p m)
  then show ?case
    using assms(2) by (cases p) (auto simp: leading_accurate_alt)
qed

lemma leading_accurate_fold_leading:
  "leading_accurate m h \<Longrightarrow> set cs \<subseteq> set (comments_of (n_leading (h n))) \<Longrightarrow>
   leading_accurate (fold (record_leading n) cs m) h"
proof (induction cs arbitrary: m)
  case (Cons c cs)
  have "leading_accurate (record_leading n c m) h"
    unfolding record_leading_def
    by (rule leading_accurate_map_upd) (use Cons.prems in \<open>auto simp: carries_key_def\<close>)
  with Cons show ?case by simp
qed simp

lemma leading_accurate_fold_trailing:
  "leading_accurate m h \<Longrightarrow> leading_accurate (fold (record_trailing n) cs m) h"
proof (induction cs arbitrary: m)
  case (Cons c cs)
  have "leading_accurate (record_trailing n c m) h"
    unfolding record_trailing_def by (rule leading_accurate_map_upd) (simp_all add: Cons.prems)
  with Cons show ?case by simp
qed simp

lemma leading_accurate_record_node:
  "leading_accurate m h \<Longrightarrow> leading_accurate (record_node h n m) h"
  unfolding record_node_def
  by (intro leading_accurate_fold_trailing leading_accurate_fold_leading) simp_all

lemma leading_accurate_rewrite:
  "leading_accurate m h \<Longrightarrow> set (comments_of (n_leading (h n))) \<subseteq> set (comments_of (n_leading nd)) \<Longrightarrow>
   leading_accurate m (h(n := nd))"
  by (fastforce simp: leading_accurate_alt carries_key_def split: option.splits)

lemma run_driver_leading_accurate:
  "run_driver es (h, st) = Inr (h', st') \<Longrightarrow> leading_kept es h \<Longrightarrow>
   leading_accurate (commentsToNodesMap st) h \<Longrightarrow> leading_accurate (commentsToNodesMap st') h'"
proof (induction es arbitrary: h st)
  case Nil
  then show ?case by simp
next
  case (Cons e es)
  show ?case
  proof (cases e)
    case (Visit n)
    have "leading_accurate (record_node h n (commentsToNodesMap st)) h"
      using Cons.prems(3) by (rule leading_accurate_record_node)
    then show ?thesis
      using Cons.prems(1,2) Visit
        Cons.IH [of h "st\<lparr>commentsToNodesMap := record_node h n (commentsToNodesMap st)\<rparr>"]
      by simp
  next
    case (Rewrite n nd)
    with Cons show ?thesis by (auto intro: leading_accurate_rewrite)
  next
    case (UseUtilityType u)
    with Cons show ?thesis by auto
  next
    case (SetTrailingLines v)
    with Cons show ?thesis by auto
  next
    case (Fail msg)
    with Cons.prems show ?thesis by simp
  qed
qed

subsection \<open>Comments of the heap\<close>

lemma run_driver_heap_ok:
  "run_driver es (h, st) = Inr (h', st') \<Longrightarrow> list_all (event_ok cs) es \<Longrightarrow>
   heap_comments_ok cs h \<Longrightarrow> heap_comments_ok cs h'"
proof (induction es arbitrary: h st)
  case Nil
  then show ?case by simp
next
  case (Cons e es)
  then obtain h1 st1 where s: "driver_step e (h, st) = Inr (h1, st1)" "run_driver es (h1, st1) = Inr (h', st')"
    by (auto simp: bind_res_eq_Inr)
  have "heap_comments_ok cs h1"
    using s(1) Cons.prems(2,3) by (cases e) (auto simp: heap_comments_ok_upd)
  with Cons s(2) show ?case by simp
qed

lemma fix_spec_node_comments:
  "set (node_comments (fix_spec m h t)) \<subseteq> set (node_comments (h t))"
  by (cases "n_trailing (h t)") (auto simp: node_comments_def comments_of_def fix_spec_fields)

text \<open>
  The Reconciler loses no comment when the map's leading nodes carry their comments
  and range keys identify comments: a dropped trailing comment is a leading comment of
  the entry's leading node, which \<open>fixComments\<close> does not touch.
\<close>

lemma fix_comments_keeps_comment:
  assumes "fix_comments m h = Inr (h', lg)" and "leading_accurate m h"
    and "heap_comments_ok cs h" and "distinct (map range_key cs)"
    and "c \<in> set (node_comments (h n))"
  shows "\<exists>n'. c \<in> set (node_comments (h' n'))"
proof -
  from fix_comments_InrD [OF assms(1)] have h': "h' = fix_spec m h" by simp
  have inj: "inj_on range_key (set cs)" using assms(4) by (simp add: distinct_map)
  have cs: "c \<in> set cs" using assms(3,5) by (auto simp: heap_comments_ok_def)
  show ?thesis
  proof (cases "c \<in> set (node_comments (h' n))")
    case True
    then show ?thesis by blast
  next
    case False
    obtain tcs where t: "n_trailing (h n) = Some tcs" "c \<in> set tcs"
      using False assms(5)
      by (cases "n_trailing (h n)") (auto simp: h' node_comments_def comments_of_def fix_spec_fields)
    then have nk: "n \<in> set (targets m)" "\<not> kept_by m n (n_line (h n)) c"
      using False by (auto simp: h' node_comments_def comments_of_def fix_spec_fields split: if_splits)
    then obtain v where e: "(range_key c, v) \<in> set m" "leading v \<noteq> None"
      using not_kept_by by blast
    then obtain l where l: "leading v = Some l" by auto
    with e assms(2) obtain c' where c': "c' \<in> set (comments_of (n_leading (h l)))" "range_key c' = range_key c"
      by (fastforce simp: leading_accurate_alt carries_key_def)
    then have "c' \<in> set cs" using assms(3) by (auto simp: heap_comments_ok_def node_comments_def)
    with c'(2) cs inj have "c' = c" by (auto dest: inj_onD)
    with c' have "c \<in> set (node_comments (h' l))"
      by (simp add: h' node_comments_def fix_spec_fields)
    then show ?thesis by blast
  qed
qed

subsection \<open>Examples\<close>

lemma ex_fix: "fix_comments (commentsToNodesMap ex_walk_state) ex_heap =
      Inr (ex_heap(1 := ex_a\<lparr>n_trailing := Some [ex_c1]\<rparr>), [])"
    by (simp add: ex_walk_state_def ex_heap_def ex_a_def ex_b_def ex_c1_def ex_c2_def fix_entry_def
      keep_comment_def same_line_test_def range_key_def nat_str.simps)
text \<open>
  A heap with statement A (node 1) carrying \<open>// note\<close> and \<open>// next\<close> as trailing
  comments, statement B (node 2) carrying them as leading comments, and no other node
  carrying a comment; and a walk that visits A and B and then replaces B by a node
  without leading comments.
\<close>

definition ex_empty :: node where
  "ex_empty = \<lparr>n_type = ''EmptyStatement'', n_line = Some 5, n_leading = None, n_trailing = None\<rparr>"

definition ex_heap3 :: store where
  "ex_heap3 = (\<lambda>_. ex_empty)(1 := ex_a, 2 := ex_b)"

definition ex_strip_walk :: "event list" where
  "ex_strip_walk = [Visit 1, Visit 2, Rewrite 2 (ex_b\<lparr>n_leading := None\<rparr>)]"

definition ex_map_trailing_only :: cmap where
  "ex_map_trailing_only = [(range_key ex_c1, \<lparr>leading = None, trailing = Some 1\<rparr>),
                           (range_key ex_c2, \<lparr>leading = None, trailing = Some 1\<rparr>)]"

subsection \<open>Properties\<close>

text \<open>
  \<^bold>\<open>C27.\<close> No comment is lost: after a walk whose handlers never create comments and
  keep the leading comments of the nodes they rewrite, on a parse whose comments have
  distinct range keys, every comment attached to a node when the walk ends is still
  attached to some node after \<open>fixComments\<close>.
\<close>

theorem walk_fix_comments_keeps_comments:
  assumes "run_driver es (h0, init_state opts idx) = Inr (h, st)"
    and "leading_kept es h0" and "heap_comments_ok cs h0" and "list_all (event_ok cs) es"
    and "distinct (map range_key cs)"
    and "fix_comments (commentsToNodesMap st) h = Inr (h', lg)"
    and "c \<in> set (node_comments (h n))"
  shows "\<exists>n'. c \<in> set (node_comments (h' n'))"
proof -
  have "leading_accurate (commentsToNodesMap (init_state opts idx)) h0"
    by (simp add: init_state_def leading_accurate_def)
  with assms(1,2) have acc: "leading_accurate (commentsToNodesMap st) h"
    by (rule run_driver_leading_accurate)
  have ok: "heap_comments_ok cs h"
    using run_driver_heap_ok assms(1,3,4) by blast
  show ?thesis
    using fix_comments_keeps_comment [OF assms(6) acc ok assms(5,7)] .
qed

theorem walk_fix_comments_keeps_comments_witness:
  "run_driver ex_walk (ex_heap, init_state JUndef Map.empty) = Inr (ex_heap, ex_walk_state) \<and>
   leading_kept ex_walk ex_heap \<and> heap_comments_ok [ex_c1, ex_c2] ex_heap \<and>
   list_all (event_ok [ex_c1, ex_c2]) ex_walk \<and> distinct (map range_key [ex_c1, ex_c2]) \<and>
   fix_comments (commentsToNodesMap ex_walk_state) ex_heap =
     Inr (ex_heap(1 := ex_a\<lparr>n_trailing := Some [ex_c1]\<rparr>), []) \<and>
   ex_c2 \<in> set (node_comments (ex_heap 1)) \<and>
   (\<exists>n'. ex_c2 \<in> set (node_comments ((ex_heap(1 := ex_a\<lparr>n_trailing := Some [ex_c1]\<rparr>)) n')))"
proof -
  have k: "leading_kept ex_walk ex_heap" and ok: "list_all (event_ok [ex_c1, ex_c2]) ex_walk"
    by (simp_all add: ex_walk_def)
  have d: "distinct (map range_key [ex_c1, ex_c2])"
    by (simp add: range_key_eq_iff ex_c1_def ex_c2_def)
  have c: "ex_c2 \<in> set (node_comments (ex_heap 1))"
    by (simp add: node_comments_def comments_of_def ex_heap_def ex_a_def)
  show ?thesis
    using walk_fix_comments_keeps_comments [OF ex_walk_run k ex_heap_comments_ok ok d ex_fix c]
      ex_walk_run k ex_heap_comments_ok ok d ex_fix c by simp
qed

text \<open>
  \<^bold>\<open>C28.\<close> The Reconciler does not check the leading node it defers to: a comment that
  is attached only to the trailing array of node \<open>t\<close>, is filed under an entry with a
  leading node and \<open>t\<close> as trailing node, and is not an end-of-line comment of \<open>t\<close>,
  is attached to no node at all after \<open>fixComments\<close>.  The witness reaches such a
  state by a walk that strips the leading node after visiting it.
\<close>

theorem fix_comments_loses_comment:
  assumes "fix_comments m h = Inr (h', lg)"
    and "(range_key c, v) \<in> set m" and "leading v \<noteq> None" and "trailing v = Some t"
    and "\<not> stays_same_line (n_line (h t)) c"
    and "{n. c \<in> set (node_comments (h n))} = {t}"
    and "c \<notin> set (comments_of (n_leading (h t)))"
  shows "{n. c \<in> set (node_comments (h' n))} = {}"
proof -
  from fix_comments_InrD [OF assms(1)] have h': "h' = fix_spec m h" by simp
  have tgt: "t \<in> set (targets m)"
    using assms(2-4) by (force simp: mem_targets claims_trailing_def)
  have nk: "\<not> kept_by m t (n_line (h t)) c"
    using assms(2-5) not_kept_by by blast
  have "c \<notin> set (node_comments (h' n))" for n
  proof (cases "n = t")
    case True
    then show ?thesis
      using assms(7) tgt nk
      by (cases "n_trailing (h t)") (auto simp: h' node_comments_def comments_of_def fix_spec_fields)
  next
    case False
    then have "c \<notin> set (node_comments (h n))" using assms(6) by blast
    then show ?thesis using fix_spec_node_comments [of m h n] by (auto simp: h')
  qed
  then show ?thesis by blast
qed

theorem fix_comments_loses_comment_witness:
  "run_driver ex_strip_walk (ex_heap3, init_state JUndef Map.empty) =
     Inr (ex_heap3(2 := ex_b\<lparr>n_leading := None\<rparr>), (init_state JUndef Map.empty)\<lparr>commentsToNodesMap := ex_map\<rparr>) \<and>
   \<not> leading_kept ex_strip_walk ex_heap3 \<and>
   fix_comments ex_map (ex_heap3(2 := ex_b\<lparr>n_leading := None\<rparr>)) =
     Inr (ex_heap3(2 := ex_b\<lparr>n_leading := None\<rparr>, 1 := ex_a\<lparr>n_trailing := Some [ex_c1]\<rparr>), []) \<and>
   (range_key ex_c2, \<lparr>leading = Some 2, trailing = Some 1\<rparr>) \<in> set ex_map \<and>
   \<not> stays_same_line (n_line ((ex_heap3(2 := ex_b\<lparr>n_leading := None\<rparr>)) 1)) ex_c2 \<and>
   {n. ex_c2 \<in> set (node_comments ((ex_heap3(2 := ex_b\<lparr>n_leading := None\<rparr>)) n))} = {1} \<and>
   ex_c2 \<notin> set (comments_of (n_leading ((ex_heap3(2 := ex_b\<lparr>n_leading := None\<rparr>)) 1))) \<and>
   {n. ex_c2 \<in> set (node_comments ((ex_heap3(2 := ex_b\<lparr>n_leading := None\<rparr>, 1 := ex_a\<lparr>n_trailing := Some [ex_c1]\<rparr>)) n))} = {}"
proof -
  let ?H = "ex_heap3(2 := ex_b\<lparr>n_leading := None\<rparr>)"
  have run: "run_driver ex_strip_walk (ex_heap3, init_state JUndef Map.empty) =
     Inr (?H, (init_state JUndef Map.empty)\<lparr>commentsToNodesMap := ex_map\<rparr>)"
    by (simp add: ex_strip_walk_def ex_heap3_def init_state_def record_node_def record_leading_def
        record_trailing_def comments_of_def ex_a_def ex_b_def ex_map_def range_key_eq_iff ex_c1_def ex_c2_def)
  have nk: "\<not> leading_kept ex_strip_walk ex_heap3"
    by (simp add: ex_strip_walk_def ex_heap3_def ex_b_def comments_of_def)
  have fx: "fix_comments ex_map ?H = Inr (?H(1 := ex_a\<lparr>n_trailing := Some [ex_c1]\<rparr>), [])"
    by (simp add: ex_map_def ex_heap3_def ex_a_def ex_c1_def ex_c2_def fix_entry_def
        keep_comment_def same_line_test_def range_key_def nat_str.simps)
  have e: "(range_key ex_c2, \<lparr>leading = Some 2, trailing = Some 1\<rparr>) \<in> set ex_map"
    by (simp add: ex_map_def)
  have ns: "\<not> stays_same_line (n_line (?H 1)) ex_c2"
    by (simp add: ex_heap3_def ex_a_def ex_c2_def stays_same_line_def same_line_test_def)
  have only: "{n. ex_c2 \<in> set (node_comments (?H n))} = {1}"
    by (auto simp: ex_heap3_def ex_empty_def ex_a_def ex_b_def node_comments_def comments_of_def
        ex_c1_def ex_c2_def split: if_splits)
  have nl: "ex_c2 \<notin> set (comments_of (n_leading (?H 1)))"
    by (simp add: ex_heap3_def ex_a_def comments_of_def)
  have "{n. ex_c2 \<in> set (node_comments ((?H(1 := ex_a\<lparr>n_trailing := Some [ex_c1]\<rparr>)) n))} = {}"
    using fix_comments_loses_comment [OF fx e _ _ ns only nl] by simp
  with run nk fx e ns only nl show ?thesis by simp
qed

text \<open>
  \<^bold>\<open>C33.\<close> The Reconciler acts only on comments claimed twice: when no entry of the map
  has both a leading and a trailing node (for instance after a walk that recorded only
  trailing comments), \<open>fixComments\<close> leaves every node as it is and prints nothing.
\<close>

theorem fix_comments_nothing_claimed:
  assumes "targets m = []"
  shows "fix_comments m h = Inr (h, [])"
  using assms
proof (induction m)
  case Nil
  then show ?case by simp
next
  case (Cons e es)
  obtain k v where e: "e = (k, v)" by (cases e)
  from Cons.prems have "\<not> (leading v \<noteq> None \<and> trailing v \<noteq> None)" and "targets es = []"
    by (auto simp: e split: if_splits option.splits)
  with Cons.IH show ?case by (simp add: e fix_entry_skip)
qed

theorem fix_comments_nothing_claimed_witness:
  "targets ex_map_trailing_only = [] \<and> fix_comments ex_map_trailing_only ex_heap = Inr (ex_heap, [])"
proof -
  have t: "targets ex_map_trailing_only = []" by (simp add: ex_map_trailing_only_def)
  show ?thesis using fix_comments_nothing_claimed [OF t] t by simp
qed

end
