(* ===== verification/Convert.thy ===== *)
theory Convert
  imports Reconciler PositionIndex Output Driver Preservation
begin

text \<open>
  The public entry point \<open>convert(flowCode, options)\<close> of src/src/convert.js
  (lines 55--98) and the parser configuration \<open>parseOptions\<close> (lines 9--27).  The
  four collaborators the code only calls are parameters, bundled as \<open>backends\<close>:
  the parser \<open>parse\<close> of \<open>@babel/parser\<close>, the walk \<open>traverse(ast, transform,
  null, state)\<close> (modelled on its own in the theory \<open>Driver\<close>), the generator of
  \<open>@babel/generator\<close> and \<open>prettier.format\<close>.  Each may throw, which is an
  \<open>Inl\<close> of its result.  The stages run in the order of the code: parse, build
  the index, build the state, traverse, reconcile comments, optionally dump the AST,
  generate and append trailing newlines, optionally format.  The result pairs the
  returned string with the console output.  The parameter \<open>options\<close> is called
  \<open>opts\<close> here, since \<open>options\<close> names the field of the conversion state.
\<close>

subsection \<open>Parser configuration (lines 9--27)\<close>

record parse_options =
  sourceType :: string
  parser_plugins :: "string list"

definition parseOptions :: parse_options where
  "parseOptions =
     \<lparr>sourceType = ''module'',
      parser_plugins =
        [''jsx'', ''flow'', ''decorators-legacy'', ''classProperties'', ''objectRestSpread'',
         ''dynamicImport'', ''optionalChaining'', ''nullishCoalescingOperator'',
         ''classPrivateProperties'', ''classPrivateMethods'']\<rparr>"

subsection \<open>The collaborators\<close>

record backends =
  b_parse :: "string \<Rightarrow> parse_options \<Rightarrow> ast result"
  b_traverse :: "ast \<Rightarrow> conv_state \<Rightarrow> (store \<times> conv_state) result"
  b_generate :: generator
  b_format :: formatter

subsection \<open>convert (lines 55--98)\<close>

text \<open>\<open>if (options && options.debug) console.log(JSON.stringify(ast, null, 4))\<close>.\<close>

definition debug_log :: "jsval \<Rightarrow> diag list" where
  "debug_log opts = (if truthy opts \<and> truthy (get_prop opts ''debug'') then [DumpAst] else [])"

definition convert :: "backends \<Rightarrow> string \<Rightarrow> jsval \<Rightarrow> (string \<times> diag list) result" where
  "convert B flowCode opts =
     bind_res (b_parse B flowCode parseOptions) (\<lambda>ast.
     bind_res (build_index (a_comments ast)) (\<lambda>startLineToComments.
     bind_res (b_traverse B ast (init_state opts startLineToComments)) (\<lambda>(h, state).
     bind_res (fix_comments (commentsToNodesMap state) h) (\<lambda>(h', lg).
     bind_res (regenerate (b_generate B) h' (a_root ast) flowCode (trailingLines state)) (\<lambda>tsCode.
     bind_res (format_output (b_format B) opts tsCode) (\<lambda>out.
     Inr (out, lg @ debug_log opts)))))))"

subsection \<open>Lemmas\<close>

text \<open>A successful conversion, stage by stage.\<close>

lemma convert_Inr:
  "convert B flowCode opts = Inr (out, lg) \<longleftrightarrow>
   (\<exists>ast h state h' lg0 tsCode.
      b_parse B flowCode parseOptions = Inr ast \<and>
      all_located (a_comments ast) \<and>
      b_traverse B ast (init_state opts (last_on_line (a_comments ast))) = Inr (h, state) \<and>
      fix_comments (commentsToNodesMap state) h = Inr (h', lg0) \<and>
      regenerate (b_generate B) h' (a_root ast) flowCode (trailingLines state) = Inr tsCode \<and>
      format_output (b_format B) opts tsCode = Inr out \<and>
      lg = lg0 @ debug_log opts)"
  by (auto simp: convert_def bind_res_eq_Inr build_index_Inr split: prod.splits)

lemma regenerate_Inr:
  "regenerate generate h root flowCode lns = Inr tsCode \<longleftrightarrow>
   (\<exists>code. generate h root flowCode = Inr code \<and> tsCode = code @ replicate (trailing_count lns) CHR ''\<newline>'')"
  by (auto simp: regenerate_def bind_res_eq_Inr append_newlines_eq trailing_count_def split: option.splits)

subsection \<open>Examples\<close>

definition ex_ast :: ast where
  "ex_ast = \<lparr>a_root = 0, a_store = ex_heap, a_comments = [ex_c1, ex_c2]\<rparr>"

definition ex_backends :: backends where
  "ex_backends =
     \<lparr>b_parse = (\<lambda>src po. Inr ex_ast),
      b_traverse = (\<lambda>ast st. run_driver ex_walk (a_store ast, st)),
      b_generate = (\<lambda>h root src. Inr ''a(); // note''),
      b_format = ex_format\<rparr>"

definition ex_failing_parser :: backends where
  "ex_failing_parser = ex_backends\<lparr>b_parse := (\<lambda>src po. Inl (ParseError ''Unexpected token (1:4)''))\<rparr>"

definition ex_noop_backends :: backends where
  "ex_noop_backends = ex_backends\<lparr>b_traverse := (\<lambda>ast st. Inr (a_store ast, st))\<rparr>"

definition ex_failing_walk :: backends where
  "ex_failing_walk = ex_backends\<lparr>b_traverse := (\<lambda>ast st. run_driver ([Visit 1] @ Fail ''unsupported node'' # [Visit 2]) (a_store ast, st))\<rparr>"

text \<open>A walk that rewrites nothing and records three trailing blank lines.\<close>

definition ex_noop_lines :: backends where
  "ex_noop_lines = ex_backends\<lparr>b_traverse := (\<lambda>ast st. Inr (a_store ast, st\<lparr>trailingLines := JNum 3\<rparr>))\<rparr>"

definition ex_debug_opts :: jsval where
  "ex_debug_opts = JObj [(''debug'', JBool True)]"

lemma ex_walk_any: "run_driver ex_walk (ex_heap, init_state JUndef idx) =
      Inr (ex_heap, ex_walk_state\<lparr>startLineToComments := idx\<rparr>)"
    by (simp add: ex_walk_def ex_walk_state_def init_state_def js_assign_def record_node_def
      record_leading_def record_trailing_def comments_of_def set_add_def ex_heap_def ex_a_def ex_b_def
      range_key_eq_iff ex_c1_def ex_c2_def)
lemma ex_convert_run: "convert ex_backends ''a(); // note'' JUndef = Inr (''a(); // note\<newline>\<newline>'', [])"
proof -
  let ?idx = "last_on_line (a_comments ex_ast)"
  let ?st = "ex_walk_state\<lparr>startLineToComments := ?idx\<rparr>"
  let ?h' = "ex_heap(1 := ex_a\<lparr>n_trailing := Some [ex_c1]\<rparr>)"
  have p: "b_parse ex_backends ''a(); // note'' parseOptions = Inr ex_ast"
    by (simp add: ex_backends_def)
  have loc: "all_located (a_comments ex_ast)"
    by (simp add: ex_ast_def all_located_def ex_c1_def ex_c2_def)
  have t: "b_traverse ex_backends ex_ast (init_state JUndef ?idx) = Inr (ex_heap, ?st)"
    by (simp add: ex_backends_def ex_ast_def ex_walk_any)
  have g: "\<And>h r. regenerate (b_generate ex_backends) h r ''a(); // note'' (trailingLines ex_walk_state) =
      Inr (''a(); // note\<newline>\<newline>'')"
    by (simp add: regenerate_def ex_backends_def append_newlines_eq ex_walk_state_def numeral_2_eq_2)
  show ?thesis
    by (simp add: convert_def p build_index_located [OF loc] t ex_fix g format_output_def debug_log_def)
qed

lemma ex_debug_run: "convert ex_noop_backends ''a(); // note'' ex_debug_opts = Inr (''a(); // note'', [DumpAst])"
proof -
  have loc: "all_located (a_comments ex_ast)"
    by (simp add: ex_ast_def all_located_def ex_c1_def ex_c2_def)
  show ?thesis
    by (simp add: convert_def ex_noop_backends_def ex_backends_def build_index_located [OF loc]
      init_state_def regenerate_def append_newlines.simps format_output_def debug_log_def ex_debug_opts_def)
qed

lemma fix_comments_Inl: "fix_comments m h = Inl e \<longleftrightarrow> \<not> fix_ok m h \<and> e = filter_type_error"
  by (cases "fix_ok m h") (auto dest: fix_comments_ok fix_comments_not_ok)

lemma regenerate_Inl: "regenerate generate h root flowCode lns = Inl e \<longleftrightarrow> generate h root flowCode = Inl e"
  by (auto simp: regenerate_def bind_res_eq_Inl)

lemma format_output_Inl:
  "format_output format opts tsCode = Inl e \<Longrightarrow> \<exists>po. format tsCode po = Inl e"
  by (auto simp: format_output_def bind_res_eq_Inl split: if_splits)

text \<open>Options without own properties, and walks that throw.\<close>

lemma get_prop_no_props: "own_props v = [] \<Longrightarrow> get_prop v k = JUndef"
  by (cases v) simp_all

lemma js_assign_no_props: "own_props v = [] \<Longrightarrow> js_assign tgt v = tgt"
  by (simp add: js_assign_def)

lemma run_driver_first_fail:
  "\<forall>m. Fail m \<notin> set es1 \<Longrightarrow> run_driver (es1 @ Fail msg # es2) s = Inl (HandlerError msg)"
proof (induction es1 arbitrary: s)
  case Nil
  then show ?case by simp
next
  case (Cons e es1)
  then obtain s1 where "driver_step e s = Inr s1"
    by (cases e; cases s) auto
  with Cons show ?case by simp
qed

text \<open>The Reconciler writes only lines naming a node, never the AST dump.\<close>

lemma keep_comment_log_node: "x \<in> set (snd (keep_comment k t l c)) \<Longrightarrow> x = LogNode t"
  by (auto simp: keep_comment_def split: if_splits option.splits)

lemma fix_entry_log_node:
  assumes "fix_entry e h = Inr (h', lg)" and "x \<in> set lg"
  shows "\<exists>t. x = LogNode t"
  using assms keep_comment_log_node
  by (fastforce simp: fix_entry_def filter_logged_eq split: prod.splits option.splits)

lemma fix_comments_log_node:
  "fix_comments m h = Inr (h', lg) \<Longrightarrow> x \<in> set lg \<Longrightarrow> \<exists>t. x = LogNode t"
proof (induction m arbitrary: h h' lg)
  case Nil
  then show ?case by simp
next
  case (Cons e es)
  then obtain h1 lg1 lg2 where "fix_entry e h = Inr (h1, lg1)" "fix_comments es h1 = Inr (h', lg2)"
    "lg = lg1 @ lg2"
    by (auto simp: bind_res_eq_Inr split: prod.splits)
  with Cons show ?case by (auto dest: fix_entry_log_node)
qed

subsection \<open>Properties of convert\<close>

text \<open>
  \<^bold>\<open>C17.\<close> A parse error is fatal and surfaced verbatim: when the parser throws,
  \<open>convert\<close> throws the same error and does nothing else.
\<close>

theorem convert_parse_error:
  assumes "b_parse B flowCode parseOptions = Inl e"
  shows "convert B flowCode opts = Inl e"
  using assms by (simp add: convert_def)

theorem convert_parse_error_witness:
  "b_parse ex_failing_parser ''let x: number = 1;'' parseOptions = Inl (ParseError ''Unexpected token (1:4)'') \<and>
   convert ex_failing_parser ''let x: number = 1;'' JUndef = Inl (ParseError ''Unexpected token (1:4)'')"
proof -
  have p: "b_parse ex_failing_parser ''let x: number = 1;'' parseOptions = Inl (ParseError ''Unexpected token (1:4)'')"
    by (simp add: ex_failing_parser_def)
  show ?thesis using convert_parse_error [OF p] p by simp
qed

text \<open>
  \<^bold>\<open>C18.\<close> Without formatting, the output is the generated code of the reconciled
  AST followed by exactly \<open>trailing_count (state.trailingLines)\<close> newlines, and is
  not trimmed.
\<close>

theorem convert_unformatted_output:
  assumes "convert B flowCode opts = Inr (out, lg)"
    and "\<not> (truthy opts \<and> truthy (get_prop opts ''prettier''))"
  shows "\<exists>ast h state h' lg0 code.
           b_traverse B ast (init_state opts (last_on_line (a_comments ast))) = Inr (h, state) \<and>
           fix_comments (commentsToNodesMap state) h = Inr (h', lg0) \<and>
           b_generate B h' (a_root ast) flowCode = Inr code \<and>
           out = code @ replicate (trailing_count (trailingLines state)) CHR ''\<newline>''"
proof -
  from assms(1) obtain ast h state h' lg0 tsCode where
    t: "b_traverse B ast (init_state opts (last_on_line (a_comments ast))) = Inr (h, state)"
    and f: "fix_comments (commentsToNodesMap state) h = Inr (h', lg0)"
    and r: "regenerate (b_generate B) h' (a_root ast) flowCode (trailingLines state) = Inr tsCode"
    and o: "format_output (b_format B) opts tsCode = Inr out"
    unfolding convert_Inr by blast
  from o assms(2) have "out = tsCode" by (simp add: format_output_off)
  with r obtain code where "b_generate B h' (a_root ast) flowCode = Inr code"
    and "out = code @ replicate (trailing_count (trailingLines state)) CHR ''\<newline>''"
    by (auto simp: regenerate_Inr)
  with t f show ?thesis by blast
qed

theorem convert_unformatted_output_witness:
  "convert ex_backends ''a(); // note'' JUndef = Inr (''a(); // note\<newline>\<newline>'', []) \<and>
   \<not> (truthy JUndef \<and> truthy (get_prop JUndef ''prettier'')) \<and>
   (\<exists>ast h state h' lg0 code.
      b_traverse ex_backends ast (init_state JUndef (last_on_line (a_comments ast))) = Inr (h, state) \<and>
      fix_comments (commentsToNodesMap state) h = Inr (h', lg0) \<and>
      b_generate ex_backends h' (a_root ast) ''a(); // note'' = Inr code \<and>
      ''a(); // note\<newline>\<newline>'' = code @ replicate (trailing_count (trailingLines state)) CHR ''\<newline>'')"
proof -
  have off: "\<not> (truthy JUndef \<and> truthy (get_prop JUndef ''prettier''))" by simp
  show ?thesis using convert_unformatted_output [OF ex_convert_run off] ex_convert_run off by blast
qed

text \<open>
  \<^bold>\<open>C19.\<close> Round trip on input with nothing to rewrite: when the walk rewrites no
  node and files no comment, and only records the number of trailing blank lines
  \<open>lns\<close>, the generator receives the parsed AST unchanged, exactly
  \<open>trailing_count lns\<close> newlines are appended to its code (none when \<open>lns\<close> is 0,
  undefined or negative), and the result is that text, formatted if requested.
\<close>

theorem convert_noop_walk:
  assumes "b_parse B flowCode parseOptions = Inr ast" and "all_located (a_comments ast)"
    and "\<And>st. b_traverse B ast st = Inr (a_store ast, st\<lparr>trailingLines := lns\<rparr>)"
  shows "convert B flowCode opts =
           bind_res (b_generate B (a_store ast) (a_root ast) flowCode) (\<lambda>code.
           bind_res (format_output (b_format B) opts (code @ replicate (trailing_count lns) CHR ''\<newline>''))
             (\<lambda>out. Inr (out, debug_log opts)))"
proof -
  have "append_newlines 0 lns code = code @ replicate (trailing_count lns) CHR ''\<newline>''" for code
    by (simp add: append_newlines_eq trailing_count_def split: option.splits)
  then show ?thesis
    using assms
    by (cases "b_generate B (a_store ast) (a_root ast) flowCode")
       (simp_all add: convert_def build_index_located init_state_def regenerate_def)
qed

theorem convert_noop_walk_witness:
  "b_parse ex_noop_lines ''a(); // note'' parseOptions = Inr ex_ast \<and> all_located (a_comments ex_ast) \<and>
   (\<forall>st. b_traverse ex_noop_lines ex_ast st = Inr (a_store ex_ast, st\<lparr>trailingLines := JNum 3\<rparr>)) \<and>
   convert ex_noop_lines ''a(); // note'' JUndef = Inr (''a(); // note\<newline>\<newline>\<newline>'', [])"
proof -
  have p: "b_parse ex_noop_lines ''a(); // note'' parseOptions = Inr ex_ast"
    by (simp add: ex_noop_lines_def ex_backends_def)
  have loc: "all_located (a_comments ex_ast)"
    by (simp add: ex_ast_def all_located_def ex_c1_def ex_c2_def)
  have t: "\<And>st. b_traverse ex_noop_lines ex_ast st = Inr (a_store ex_ast, st\<lparr>trailingLines := JNum 3\<rparr>)"
    by (simp add: ex_noop_lines_def)
  have "convert ex_noop_lines ''a(); // note'' JUndef = Inr (''a(); // note\<newline>\<newline>\<newline>'', [])"
    using convert_noop_walk [OF p loc t]
    by (simp add: ex_noop_lines_def ex_backends_def format_output_def debug_log_def trailing_count_def
        numeral_3_eq_3)
  with p loc t show ?thesis by blast
qed

text \<open>
  \<^bold>\<open>C20.\<close> A failed conversion fails with exactly one error, which is the parser's,
  the \<open>TypeError\<close> of a comment without location, the walk's, the \<open>TypeError\<close>
  of a trailing node without \<open>trailingComments\<close>, the generator's or the
  formatter's: \<open>convert\<close> makes no other error.
\<close>

theorem convert_error_sources:
  assumes "convert B flowCode opts = Inl e"
  shows "b_parse B flowCode parseOptions = Inl e \<or> e = index_type_error \<or>
         (\<exists>ast st. b_traverse B ast st = Inl e) \<or> e = filter_type_error \<or>
         (\<exists>h root. b_generate B h root flowCode = Inl e) \<or> (\<exists>code po. b_format B code po = Inl e)"
  using assms
  by (auto simp: convert_def bind_res_eq_Inl build_index_Inl fix_comments_Inl regenerate_Inl
      split: prod.splits dest: format_output_Inl)

theorem convert_error_sources_witness:
  "convert ex_failing_parser ''let x: number = 1;'' JUndef = Inl (ParseError ''Unexpected token (1:4)'') \<and>
   (b_parse ex_failing_parser ''let x: number = 1;'' parseOptions = Inl (ParseError ''Unexpected token (1:4)'')
    \<or> ParseError ''Unexpected token (1:4)'' = index_type_error
    \<or> (\<exists>ast st. b_traverse ex_failing_parser ast st = Inl (ParseError ''Unexpected token (1:4)''))
    \<or> ParseError ''Unexpected token (1:4)'' = filter_type_error
    \<or> (\<exists>h root. b_generate ex_failing_parser h root ''let x: number = 1;'' = Inl (ParseError ''Unexpected token (1:4)''))
    \<or> (\<exists>code po. b_format ex_failing_parser code po = Inl (ParseError ''Unexpected token (1:4)'')))"
proof -
  have r: "convert ex_failing_parser ''let x: number = 1;'' JUndef = Inl (ParseError ''Unexpected token (1:4)'')"
    by (simp add: convert_def ex_failing_parser_def)
  show ?thesis using convert_error_sources [OF r] r by blast
qed

text \<open>
  \<^bold>\<open>C24.\<close> The AST is dumped exactly when \<open>options.debug\<close> is set, once, and after
  every line the Reconciler printed.
\<close>

theorem convert_debug_dump:
  assumes "convert B flowCode opts = Inr (out, lg)"
  shows "(DumpAst \<in> set lg \<longleftrightarrow> truthy opts \<and> truthy (get_prop opts ''debug'')) \<and>
         (\<exists>lg0. lg = lg0 @ debug_log opts \<and> DumpAst \<notin> set lg0)"
proof -
  from assms [unfolded convert_Inr] obtain st :: conv_state and h h' lg0
    where f: "fix_comments (commentsToNodesMap st) h = Inr (h', lg0)" and lg: "lg = lg0 @ debug_log opts"
    by blast
  have "DumpAst \<notin> set lg0"
    using fix_comments_log_node [OF f] by fastforce
  with lg show ?thesis by (auto simp: debug_log_def)
qed

theorem convert_debug_dump_witness:
  "convert ex_noop_backends ''a(); // note'' ex_debug_opts = Inr (''a(); // note'', [DumpAst]) \<and>
   (DumpAst \<in> set [DumpAst] \<longleftrightarrow> truthy ex_debug_opts \<and> truthy (get_prop ex_debug_opts ''debug'')) \<and>
   (\<exists>lg0. [DumpAst] = lg0 @ debug_log ex_debug_opts \<and> DumpAst \<notin> set lg0)"
  using convert_debug_dump [OF ex_debug_run] ex_debug_run by simp

text \<open>
  \<^bold>\<open>C29.\<close> Options without own enumerable properties are no options: \<open>convert\<close>
  called with \<open>null\<close>, \<open>{}\<close>, \<open>""\<close>, a boolean or a number as \<open>options\<close> behaves
  exactly as when called without options; the guards \<open>options && ...\<close> and
  \<open>Object.assign\<close> make these indistinguishable from \<open>undefined\<close>.
\<close>

theorem convert_empty_options:
  assumes "own_props opts = []"
  shows "convert B flowCode opts = convert B flowCode JUndef"
proof -
  have "init_state opts = init_state JUndef"
    using assms by (simp add: init_state_def js_assign_no_props js_assign_def fun_eq_iff)
  moreover have "format_output f opts = format_output f JUndef" for f
    using assms by (simp add: format_output_def get_prop_no_props fun_eq_iff)
  moreover have "debug_log opts = debug_log JUndef"
    using assms by (simp add: debug_log_def get_prop_no_props)
  ultimately show ?thesis by (simp add: convert_def)
qed

theorem convert_empty_options_witness:
  "own_props (JObj []) = [] \<and> convert ex_backends ''a(); // note'' (JObj []) = Inr (''a(); // note\<newline>\<newline>'', [])"
proof -
  have e: "own_props (JObj []) = []" by simp
  show ?thesis using convert_empty_options [OF e, of ex_backends "''a(); // note''"] ex_convert_run e by simp
qed

text \<open>
  \<^bold>\<open>C30.\<close> A handler error is fatal and surfaced verbatim: when the walk's first
  throwing event throws \<open>msg\<close>, \<open>convert\<close> fails with exactly \<open>HandlerError msg\<close>,
  whatever the later events would have done, and produces no output.
\<close>

theorem convert_handler_error:
  assumes "b_parse B flowCode parseOptions = Inr ast" and "all_located (a_comments ast)"
    and "\<And>st. b_traverse B ast st = run_driver (es1 @ Fail msg # es2) (a_store ast, st)"
    and "\<forall>m. Fail m \<notin> set es1"
  shows "convert B flowCode opts = Inl (HandlerError msg)"
  using assms by (simp add: convert_def build_index_located run_driver_first_fail)

theorem convert_handler_error_witness:
  "b_parse ex_failing_walk ''a(); // note'' parseOptions = Inr ex_ast \<and> all_located (a_comments ex_ast) \<and>
   (\<forall>st. b_traverse ex_failing_walk ex_ast st = run_driver ([Visit 1] @ Fail ''unsupported node'' # [Visit 2]) (a_store ex_ast, st)) \<and>
   (\<forall>m. Fail m \<notin> set [Visit 1]) \<and>
   convert ex_failing_walk ''a(); // note'' JUndef = Inl (HandlerError ''unsupported node'')"
proof -
  have p: "b_parse ex_failing_walk ''a(); // note'' parseOptions = Inr ex_ast"
    by (simp add: ex_failing_walk_def ex_backends_def)
  have loc: "all_located (a_comments ex_ast)"
    by (simp add: ex_ast_def all_located_def ex_c1_def ex_c2_def)
  have t: "\<And>st. b_traverse ex_failing_walk ex_ast st = run_driver ([Visit 1] @ Fail ''unsupported node'' # [Visit 2]) (a_store ex_ast, st)"
    by (simp add: ex_failing_walk_def)
  have nf: "\<forall>m. Fail m \<notin> set [Visit 1]" by simp
  show ?thesis using convert_handler_error [OF p loc t nf] p loc t nf by blast
qed

end
