(* ===== verification/Refinement.thy ===== *)
theory Refinement
  imports Reconciler
begin

text \<open>
  \<open>fixComments\<close> (theory \<open>Reconciler\<close>) against the JavaScript \<open>Map\<close> it iterates:
  the model keeps \<open>commentsToNodesMap\<close> as an association list in insertion order,
  and the abstract \<open>Map\<close> is its \<open>map_of\<close>.  This theory shows that the Reconciler
  reads the \<open>Map\<close> only through its contents: its result is a function of the set of
  entries, so the insertion order the walk produced does not change it.
\<close>

subsection \<open>Dependence on the entries only\<close>

text \<open>
  The Reconciler reads only the set of entries: the result of \<open>fixComments\<close> is a
  function of whether \<open>fix_ok\<close> holds and of \<open>fix_spec\<close>, and both depend on the
  entries, not on their order.
\<close>

lemma set_targets_set_eq: "set m1 = set m2 \<Longrightarrow> set (targets m1) = set (targets m2)"
  by (auto simp: mem_targets)

lemma kept_by_set_eq: "set m1 = set m2 \<Longrightarrow> kept_by m1 t l = kept_by m2 t l"
  by (simp add: kept_by_def list_all_iff fun_eq_iff)

lemma fix_ok_set_eq: "set m1 = set m2 \<Longrightarrow> fix_ok m1 h = fix_ok m2 h"
  unfolding fix_ok_def list_all_iff by (drule set_targets_set_eq) simp

lemma fix_spec_set_eq:
  assumes "set m1 = set m2"
  shows "fix_spec m1 h = fix_spec m2 h"
  unfolding fix_spec_def kept_by_set_eq [OF assms] set_targets_set_eq [OF assms] ..

lemma set_eq_map_of_eq:
  assumes "distinct (map fst m1)" and "distinct (map fst m2)" and "map_of m1 = map_of m2"
  shows "set m1 = set m2"
  using assms by (metis map_of_inject_set)

lemma fix_comments_set_eq:
  assumes s: "set m1 = set m2"
  shows "map_sum id fst (fix_comments m1 h) = map_sum id fst (fix_comments m2 h)"
proof (cases "fix_ok m1 h")
  case True
  then have "fix_ok m2 h" using fix_ok_set_eq [OF s] by simp
  with True obtain lg1 lg2 where "fix_comments m1 h = Inr (fix_spec m1 h, lg1)"
    and "fix_comments m2 h = Inr (fix_spec m2 h, lg2)"
    using fix_comments_ok by blast
  then show ?thesis by (simp add: fix_spec_set_eq [OF s])
next
  case False
  then have "\<not> fix_ok m2 h" using fix_ok_set_eq [OF s] by simp
  with False show ?thesis by (simp add: fix_comments_not_ok)
qed

subsection \<open>Refinement theorems\<close>

text \<open>
  \<^bold>\<open>C25.\<close> \<open>fixComments\<close> refines an operation on the abstract \<open>Map\<close>: two maps with
  distinct keys and the same contents, in whatever insertion order, give the same
  outcome, so the order in which the walk filed the comments does not matter.
\<close>

theorem fix_comments_map_abstraction:
  assumes "distinct (map fst m1)" and "distinct (map fst m2)" and "map_of m1 = map_of m2"
  shows "map_sum id fst (fix_comments m1 h) = map_sum id fst (fix_comments m2 h)"
  using set_eq_map_of_eq [OF assms] by (rule fix_comments_set_eq)

definition ex_map_rev :: cmap where
  "ex_map_rev = rev ex_map"

theorem fix_comments_map_abstraction_witness:
  "distinct (map fst ex_map) \<and> distinct (map fst ex_map_rev) \<and> map_of ex_map = map_of ex_map_rev \<and>
   map_sum id fst (fix_comments ex_map ex_heap) = map_sum id fst (fix_comments ex_map_rev ex_heap)"
proof -
  have d: "distinct (map fst ex_map)" "distinct (map fst ex_map_rev)"
    by (simp_all add: ex_map_rev_def ex_map_def range_key_eq_iff ex_c1_def ex_c2_def)
  have m: "map_of ex_map = map_of ex_map_rev"
    by (simp add: ex_map_rev_def ex_map_def range_key_eq_iff ex_c1_def ex_c2_def fun_eq_iff)
  show ?thesis using fix_comments_map_abstraction [OF d m] d m by simp
qed

end
