(* ===== verification/Spec2Isabelle.thy ===== *)
theory Spec2Isabelle
  imports Convert Refinement Preservation
begin

text \<open>
  \<^bold>\<open>A verification development of flow-to-ts, src/src/convert.js.\<close>

  \<^bold>\<open>The program.\<close>  \<open>convert(flowCode, options)\<close> (lines 55--98) parses Flow source
  with \<open>@babel/parser\<close> under \<open>parseOptions\<close> (lines 9--27), indexes the comments of
  the parse by start line (\<open>startLineToComments\<close>, lines 61--64), builds the conversion
  state (lines 59--72), walks the AST with a vendored \<open>babel-traverse\<close> and the
  handler catalog \<open>transform.js\<close> (line 73), repairs the comment associations the walk
  invalidated with \<open>fixComments\<close> (lines 29--53, called at line 75), optionally dumps
  the AST (lines 77--79), generates code with \<open>@babel/generator\<close> and appends
  \<open>state.trailingLines\<close> newlines (lines 83--86), and optionally formats with prettier
  and trims (lines 88--97).  The components interact through shared mutable state: the
  walk mutates the AST heap in place and files every leading and trailing comment of the
  nodes it visits in \<open>commentsToNodesMap\<close>, keyed by the range key
  \<open>"<start>:<end>"\<close>; \<open>fixComments\<close> reads that map and rewrites the
  \<open>trailingComments\<close> arrays of nodes reached through it; handlers communicate with
  the code after the walk through \<open>state.trailingLines\<close>.

  \<^bold>\<open>The theories.\<close>
  \<^item> \<open>Prelude\<close>: the error type (\<open>ParseError\<close>, \<open>TypeError\<close>,
    \<open>HandlerError\<close>, \<open>GenerationError\<close>, \<open>FormatterError\<close>), results
    \<open>error + 'a\<close> with \<open>bind_res\<close>, node references \<open>nid\<close>, console output
    \<open>diag\<close>, and \<open>filter_logged\<close>, \<open>Array.prototype.filter\<close> with a logging
    callback.
  \<^item> \<open>JsValue\<close>: the JavaScript the code relies on: decimal printing of offsets
    (\<open>nat_str\<close>, with its inverse \<open>parse_nat\<close>), values \<open>jsval\<close>,
    \<open>truthy\<close>, property read, \<open>Object.assign\<close> and spread (\<open>js_assign\<close>),
    \<open>ToNumber\<close> (\<open>to_number\<close>) and \<open>String.prototype.trim\<close> (\<open>js_trim\<close>).
  \<^item> \<open>Ast\<close>: comment tokens, AST nodes (the fields the core reads), the heap
    \<open>store\<close> of nodes, the parse result \<open>ast\<close>, the range key \<open>range_key\<close>
    (line 48), the association map \<open>cmap\<close> (a list in the \<open>Map\<close>'s insertion
    order) and an example heap.  Claims C10--C11.
  \<^item> \<open>Reconciler\<close>: \<open>fixComments\<close> as \<open>same_line_test\<close> (the \<open>try\<close>),
    \<open>keep_comment\<close> (the callback), \<open>fix_entry\<close> (one map entry) and
    \<open>fix_comments\<close> (the loop, threading the heap because nodes are shared), with the
    declarative reference \<open>fix_spec\<close>.  Claims C1--C9.
  \<^item> \<open>PositionIndex\<close>: \<open>build_index\<close> (lines 61--64) against the reference
    \<open>last_on_line\<close>.  Claims C12--C13.
  \<^item> \<open>Output\<close>: the Text Regenerator (\<open>append_newlines\<close>, the \<open>for\<close> loop as
    a \<^theory_text>\<open>function\<close> with a measure; \<open>regenerate\<close>) and the Formatter Adapter
    (\<open>prettier_options\<close>, \<open>format_output\<close>).  Claims C14--C16.
  \<^item> \<open>Driver\<close>: the conversion state \<open>conv_state\<close> and \<open>init_state\<close>
    (lines 59--72), and the walk, modelled from the specification because the walker
    and the handlers are not under src/: events (\<open>Visit\<close> files the comments of a
    node, \<open>Rewrite\<close> replaces a node, \<open>UseUtilityType\<close>,
    \<open>SetTrailingLines\<close>, \<open>Fail\<close>), the step function \<open>driver_step\<close>, runs
    \<open>run_driver\<close>, and the handler contracts \<open>event_ok\<close> (comments are never
    created) and \<open>arrays_kept\<close> (a rewrite never nulls a comment array).  The
    definitions of this theory are the hypotheses of the properties of the pipeline; it
    holds no claim of its own.
  \<^item> \<open>Convert\<close>: \<open>parseOptions\<close>, the collaborators as a record of functions
    \<open>backends\<close> (parser, walk, generator, formatter: the interface the properties
    are stated over), and \<open>convert\<close>, composed stage by stage as the code is.
    Claims C17--C20, C24 and C29--C30.
  \<^item> \<open>Refinement\<close>: the JavaScript \<open>Map\<close> as the partial function \<open>map_of\<close> of
    the association list, and the Reconciler's dependence on the entries only.
    Claim C25.
  \<^item> \<open>Preservation\<close>: the walk and the Reconciler together: the handler contract
    \<open>leading_kept\<close> (a rewrite keeps the leading comments of the node it replaces),
    the invariant \<open>leading_accurate\<close> (every leading node of the map still carries a
    comment with the entry's key) it maintains, the comments of the heap, and the
    scenario \<open>ex_strip_walk\<close> that breaks the contract.  Claims C27--C28 and C33.
  \<^item> this theory: properties that span components.  Claims C21--C23, C26 and
    C31--C32.

  \<^bold>\<open>What is shown.\<close>  The Reconciler is proved equal to a declarative filter
  (C1), from which follow: end-of-line comments are never dropped (C2), idempotence
  (C3), exactly the comments filed under the key of an entry with a leading node are
  dropped (C4, C5), order and all other fields are preserved (C6, C7).  A line comment
  without a location does not make the Reconciler throw: it succeeds, keeps that
  comment unless its key names an entry with a leading node, and goes on with the
  other entries (C8); the diagnostic names a real anomaly (C9).  Range keys round-trip
  and are unique for a parse (C10, C11).  The index is last-write-wins (C12, C13).  The
  newline loop terminates with a closed form (C14); caller formatter options win and
  formatted output is trimmed (C15, C16).  \<open>convert\<close> propagates parse errors,
  preserves trailing blank lines without formatting, outputs exactly the generated code
  followed by \<open>trailingLines\<close> newlines for a walk that changes nothing but
  \<open>trailingLines\<close>, and fails only with the errors of its stages (C17--C20).
  End-of-line comments reach the generator (C21); the Reconciler cannot throw after a
  walk that keeps comment arrays (C22), but does throw when a handler nulls one (C23).
  The AST is dumped exactly when \<open>options.debug\<close> is set, after the Reconciler's
  diagnostics (C24).  \<open>fixComments\<close> refines an operation on the abstract \<open>Map\<close>:
  its result does not depend on the insertion order the walk produced (C25).
  \<open>convert\<close> makes progress: it returns whenever its collaborators return and the
  handlers keep their contracts (C26).  Under the contract that rewrites keep leading
  comments no comment is lost by the Reconciler (C27); without it, whenever a comment
  filed under an entry with a leading node sits only in the trailing array of a node
  on another line, and that node does not also carry it as a leading comment, the
  Reconciler removes it from the whole AST, because it defers to a leading node it
  does not check (C28).  Options without own properties behave as no options (C29),
  and the first handler error of the walk is the error \<open>convert\<close> fails with (C30).  A
  formatter error is propagated, never replaced by the unformatted text (C31).
  \<open>convert\<close> reads the walk's result only through the heap, the contents of the
  \<open>Map\<close> and \<open>trailingLines\<close>: \<open>usedUtilityTypes\<close> never reaches the output (C32).
  The Reconciler is the identity when no comment is claimed twice (C33).

  \<^bold>\<open>Bounds and termination.\<close>  Every definition is total and executable: loops over
  lists are structural, the newline loop terminates by the measure
  \<open>trailingLines - i\<close>, and no fuel is needed.  Offsets are printed in decimal, which is
  JavaScript's \<open>String(n)\<close> for integral \<open>n < 10^21\<close>; source offsets are far
  below.  Characters are 8-bit code units.

  \<^bold>\<open>Not modelled.\<close>  The parser, the generator and prettier are libraries the code
  only calls: they are parameters, and the properties hold for every behaviour of them.
  Which events a walk produces for a given AST (the transform catalog's rules and the
  walker's order) is not modelled; the properties of the walk hold for every event
  sequence.  \<open>JSON.stringify\<close> of the debug dump is console output, recorded only as
  the event \<open>DumpAst\<close>; the console output of the Reconciler is returned with a
  successful result only, so a run that fails after the Reconciler has logged loses
  that log in the model.  Objects are plain objects without prototypes, getters or
  symbol-keyed properties: reading \<open>options.debug\<close> or \<open>options.prettier\<close> cannot
  throw, so the guards \<open>options &&\<close> at lines 77 and 88 are modelled only through
  \<open>truthy\<close>, and an inherited \<open>debug\<close> or \<open>prettier\<close> property is not modelled.
  \<open>state.trailingLines\<close> is read as an integer count (\<open>trailing_count\<close>); a
  handler that stores a value \<open>ToNumber\<close> does not make an integer is not modelled
  beyond \<open>to_number\<close>.  The CLI and file handling are outside src/src/convert.js.
\<close>

lemma run_driver_no_fail:
  "\<forall>msg. Fail msg \<notin> set es \<Longrightarrow> \<exists>s'. run_driver es s = Inr s'"
proof (induction es arbitrary: s)
  case Nil
  then show ?case by simp
next
  case (Cons e es)
  then obtain s1 where "driver_step e s = Inr s1"
    by (cases e; cases s) auto
  with Cons show ?case by simp
qed

lemma format_output_total:
  "(\<And>code po. \<exists>out. format code po = Inr out) \<Longrightarrow> \<exists>out. format_output format opts tsCode = Inr out"
  by (auto simp: format_output_def) (metis bind_res_Inr)

text \<open>
  The stages after the Reconciler see only its heap, and its log is carried along: two
  Reconciler results with the same heap lead to the same output.
\<close>

lemma convert_fix_stage:
  assumes "map_sum id fst r1 = map_sum id fst r2"
  shows "map_sum id fst (bind_res r1 (\<lambda>(h', lg). bind_res (g h') (\<lambda>ts. bind_res (f ts) (\<lambda>out. Inr (out, lg @ d))))) =
         map_sum id fst (bind_res r2 (\<lambda>(h', lg). bind_res (g h') (\<lambda>ts. bind_res (f ts) (\<lambda>out. Inr (out, lg @ d)))))"
  using assms
  by (cases r1; cases r2) (auto simp: bind_res_def split: sum.splits)

lemma fix_ok_trailing_arrays:
  assumes "trailing_arrays m h"
  shows "fix_ok m h"
proof -
  have "n_trailing (h t) \<noteq> None" if "t \<in> set (targets m)" for t
  proof -
    from that obtain e where "e \<in> set m" "trailing (snd e) = Some t"
      by (auto simp: mem_targets claims_trailing_def)
    with assms show ?thesis by (force simp: trailing_arrays_def list_all_iff)
  qed
  then show ?thesis by (simp add: fix_ok_def list_all_iff)
qed

text \<open>
  \<^bold>\<open>C21.\<close> End-of-line comments survive the pipeline: if \<open>convert\<close> succeeds, the
  generator is called on a heap in which every line comment that trailed a node on that
  node's start line after the walk still trails it, whatever the walk did elsewhere.
\<close>

theorem convert_keeps_end_of_line:
  assumes "convert B flowCode opts = Inr (out, lg)"
    and "b_parse B flowCode parseOptions = Inr ast"
    and "b_traverse B ast (init_state opts (last_on_line (a_comments ast))) = Inr (h, st)"
    and "n_trailing (h t) = Some cs" and "c \<in> set cs"
    and "c_type c = CommentLine" and "c_line c = Some ln" and "n_line (h t) = Some ln"
  shows "\<exists>h' cs' code. b_generate B h' (a_root ast) flowCode = Inr code \<and>
           n_trailing (h' t) = Some cs' \<and> c \<in> set cs'"
proof -
  from assms(1) obtain ast' h0 st0 h' lg0 tsCode where
    p: "b_parse B flowCode parseOptions = Inr ast'"
    and t: "b_traverse B ast' (init_state opts (last_on_line (a_comments ast'))) = Inr (h0, st0)"
    and f: "fix_comments (commentsToNodesMap st0) h0 = Inr (h', lg0)"
    and r: "regenerate (b_generate B) h' (a_root ast') flowCode (trailingLines st0) = Inr tsCode"
    unfolding convert_Inr by blast
  from p t assms(2,3) have same: "ast' = ast" "h0 = h" "st0 = st" by simp_all
  from r obtain code where g: "b_generate B h' (a_root ast) flowCode = Inr code"
    by (auto simp: regenerate_Inr same)
  have "h' = fix_spec (commentsToNodesMap st) h"
    using fix_comments_InrD [OF f] by (simp add: same)
  moreover have "stays_same_line (n_line (h t)) c"
    using assms(6-8) by (rule stays_same_lineI)
  ultimately show ?thesis
    using g assms(4,5) fix_spec_keeps_stays by blast
qed

theorem convert_keeps_end_of_line_witness:
  "convert ex_backends ''a(); // note'' JUndef = Inr (''a(); // note\<newline>\<newline>'', []) \<and>
   b_parse ex_backends ''a(); // note'' parseOptions = Inr ex_ast \<and>
   b_traverse ex_backends ex_ast (init_state JUndef (last_on_line (a_comments ex_ast))) =
     Inr (ex_heap, ex_walk_state\<lparr>startLineToComments := last_on_line (a_comments ex_ast)\<rparr>) \<and>
   (\<exists>h' cs' code. b_generate ex_backends h' (a_root ex_ast) ''a(); // note'' = Inr code \<and>
      n_trailing (h' 1) = Some cs' \<and> ex_c1 \<in> set cs')"
proof -
  have p: "b_parse ex_backends ''a(); // note'' parseOptions = Inr ex_ast"
    by (simp add: ex_backends_def)
  have t: "b_traverse ex_backends ex_ast (init_state JUndef (last_on_line (a_comments ex_ast))) =
     Inr (ex_heap, ex_walk_state\<lparr>startLineToComments := last_on_line (a_comments ex_ast)\<rparr>)"
    by (simp add: ex_backends_def ex_ast_def ex_walk_any)
  have h: "n_trailing (ex_heap 1) = Some [ex_c1, ex_c2]" "ex_c1 \<in> set [ex_c1, ex_c2]"
    "c_type ex_c1 = CommentLine" "c_line ex_c1 = Some 1" "n_line (ex_heap 1) = Some 1"
    by (simp_all add: ex_heap_def ex_a_def ex_c1_def)
  show ?thesis
    using convert_keeps_end_of_line [OF ex_convert_run p t h] ex_convert_run p t by blast
qed

text \<open>
  \<^bold>\<open>C22.\<close> The walk and the Reconciler agree: after any walk whose handlers never
  remove the \<open>trailingComments\<close> array of a node, \<open>fixComments\<close> does not throw.
\<close>

theorem walk_then_fix_comments_total:
  assumes "run_driver es (h0, init_state opts idx) = Inr (h, st)" and "arrays_kept es h0"
  shows "\<exists>h' lg. fix_comments (commentsToNodesMap st) h = Inr (h', lg)"
proof -
  have "trailing_arrays (commentsToNodesMap (init_state opts idx)) h0"
    by (simp add: init_state_def trailing_arrays_def)
  with assms have "trailing_arrays (commentsToNodesMap st) h"
    by (rule run_driver_trailing_arrays)
  then have "fix_ok (commentsToNodesMap st) h" by (rule fix_ok_trailing_arrays)
  then show ?thesis using fix_comments_ok by blast
qed

theorem walk_then_fix_comments_total_witness:
  "run_driver ex_walk (ex_heap, init_state JUndef Map.empty) = Inr (ex_heap, ex_walk_state) \<and>
   arrays_kept ex_walk ex_heap \<and>
   (\<exists>h' lg. fix_comments (commentsToNodesMap ex_walk_state) ex_heap = Inr (h', lg))"
proof -
  have k: "arrays_kept ex_walk ex_heap" by (simp add: ex_walk_def)
  show ?thesis using walk_then_fix_comments_total [OF ex_walk_run k] ex_walk_run k by blast
qed

text \<open>
  \<^bold>\<open>C23.\<close> The Reconciler is not total: if a handler sets the \<open>trailingComments\<close>
  of a node filed as trailing (with a leading node) to \<open>null\<close>, \<open>fixComments\<close>
  throws a \<open>TypeError\<close> that aborts the conversion.
\<close>

theorem fix_comments_dropped_array:
  assumes "(k, v) \<in> set m" and "leading v \<noteq> None" and "trailing v = Some t"
    and "n_trailing (h t) = None"
  shows "fix_comments m h = Inl filter_type_error"
proof -
  have "t \<in> set (targets m)"
    using assms(1-3) by (force simp: mem_targets claims_trailing_def)
  with assms(4) have "\<not> fix_ok m h" by (auto simp: fix_ok_def list_all_iff)
  then show ?thesis by (rule fix_comments_not_ok)
qed

theorem fix_comments_dropped_array_witness:
  "run_driver (ex_walk @ [Rewrite 1 (ex_a\<lparr>n_trailing := None\<rparr>)]) (ex_heap, init_state JUndef Map.empty) =
     Inr (ex_heap(1 := ex_a\<lparr>n_trailing := None\<rparr>), ex_walk_state) \<and>
   fix_comments (commentsToNodesMap ex_walk_state) (ex_heap(1 := ex_a\<lparr>n_trailing := None\<rparr>)) =
     Inl filter_type_error"
proof -
  have run: "run_driver (ex_walk @ [Rewrite 1 (ex_a\<lparr>n_trailing := None\<rparr>)]) (ex_heap, init_state JUndef Map.empty) =
     Inr (ex_heap(1 := ex_a\<lparr>n_trailing := None\<rparr>), ex_walk_state)"
  proof -
    have "run_driver (xs @ ys) s = bind_res (run_driver xs s) (run_driver ys)" for xs ys s
      by (induction xs arbitrary: s) (auto simp: bind_res_def split: sum.splits)
    then show ?thesis by (simp add: ex_walk_run)
  qed
  have e: "(range_key ex_c2, \<lparr>leading = Some 2, trailing = Some 1\<rparr>) \<in> set (commentsToNodesMap ex_walk_state)"
    by (simp add: ex_walk_state_def)
  have n: "n_trailing ((ex_heap(1 := ex_a\<lparr>n_trailing := None\<rparr>)) 1) = None" by simp
  have "fix_comments (commentsToNodesMap ex_walk_state) (ex_heap(1 := ex_a\<lparr>n_trailing := None\<rparr>)) =
     Inl filter_type_error"
    using fix_comments_dropped_array [where h = "ex_heap(1 := ex_a\<lparr>n_trailing := None\<rparr>)" and t = 1, OF e _ _ n]
    by simp
  with run show ?thesis by simp
qed

text \<open>
  \<^bold>\<open>C26.\<close> Progress: \<open>convert\<close> returns a result whenever its collaborators do.  If the
  parser succeeds with located comments, the walk is a run of events none of which
  throws and whose rewrites keep \<open>trailingComments\<close> arrays, and the generator and
  the formatter return, then \<open>convert\<close> returns an output and a console log.
\<close>

theorem convert_progress:
  assumes "b_parse B flowCode parseOptions = Inr ast" and "all_located (a_comments ast)"
    and "\<And>st. b_traverse B ast st = run_driver es (a_store ast, st)"
    and "\<forall>msg. Fail msg \<notin> set es" and "arrays_kept es (a_store ast)"
    and "\<And>h. \<exists>code. b_generate B h (a_root ast) flowCode = Inr code"
    and "\<And>code po. \<exists>out. b_format B code po = Inr out"
  shows "\<exists>out lg. convert B flowCode opts = Inr (out, lg)"
proof -
  let ?st0 = "init_state opts (last_on_line (a_comments ast))"
  obtain h st where t: "b_traverse B ast ?st0 = Inr (h, st)"
    using run_driver_no_fail [OF assms(4)] assms(3) by (metis surj_pair)
  have "trailing_arrays (commentsToNodesMap ?st0) (a_store ast)"
    by (simp add: init_state_def trailing_arrays_def)
  then have "trailing_arrays (commentsToNodesMap st) h"
    using run_driver_trailing_arrays assms(3,5) t by metis
  then obtain h' lg0 where f: "fix_comments (commentsToNodesMap st) h = Inr (h', lg0)"
    using fix_ok_trailing_arrays fix_comments_ok by blast
  obtain code where g: "b_generate B h' (a_root ast) flowCode = Inr code"
    using assms(6) by blast
  let ?ts = "code @ replicate (trailing_count (trailingLines st)) CHR ''\<newline>''"
  have r: "regenerate (b_generate B) h' (a_root ast) flowCode (trailingLines st) = Inr ?ts"
    using g by (simp add: regenerate_Inr)
  obtain out where o: "format_output (b_format B) opts ?ts = Inr out"
    using format_output_total assms(7) by blast
  show ?thesis
    using assms(1,2) t f r o by (auto simp: convert_Inr)
qed

theorem convert_progress_witness:
  "b_parse ex_backends ''a(); // note'' parseOptions = Inr ex_ast \<and> all_located (a_comments ex_ast) \<and>
   (\<forall>st. b_traverse ex_backends ex_ast st = run_driver ex_walk (a_store ex_ast, st)) \<and>
   (\<forall>msg. Fail msg \<notin> set ex_walk) \<and> arrays_kept ex_walk (a_store ex_ast) \<and>
   (\<forall>h. \<exists>code. b_generate ex_backends h (a_root ex_ast) ''a(); // note'' = Inr code) \<and>
   (\<forall>code po. \<exists>out. b_format ex_backends code po = Inr out) \<and>
   (\<exists>out lg. convert ex_backends ''a(); // note'' JUndef = Inr (out, lg))"
proof -
  have p: "b_parse ex_backends ''a(); // note'' parseOptions = Inr ex_ast"
    by (simp add: ex_backends_def)
  have loc: "all_located (a_comments ex_ast)"
    by (simp add: ex_ast_def all_located_def ex_c1_def ex_c2_def)
  have t: "\<And>st. b_traverse ex_backends ex_ast st = run_driver ex_walk (a_store ex_ast, st)"
    by (simp add: ex_backends_def)
  have nf: "\<forall>msg. Fail msg \<notin> set ex_walk" and k: "arrays_kept ex_walk (a_store ex_ast)"
    by (simp_all add: ex_walk_def ex_ast_def)
  have g: "\<And>h. \<exists>code. b_generate ex_backends h (a_root ex_ast) ''a(); // note'' = Inr code"
    by (simp add: ex_backends_def)
  have f: "\<And>code po. \<exists>out. b_format ex_backends code po = Inr out"
    by (simp add: ex_backends_def ex_format_def)
  show ?thesis
    using convert_progress [where opts = JUndef, OF p loc t nf k g f] p loc t nf k g f by blast
qed

text \<open>
  \<^bold>\<open>C31.\<close> A formatter error is fatal: when formatting is requested and prettier
  throws on the regenerated text, \<open>convert\<close> fails with prettier's error; it does not
  fall back to the unformatted text (the open question of specification section 9 is
  settled by the code in favour of propagation).
\<close>

theorem convert_formatter_error:
  assumes "b_parse B flowCode parseOptions = Inr ast" and "all_located (a_comments ast)"
    and "b_traverse B ast (init_state opts (last_on_line (a_comments ast))) = Inr (h, st)"
    and "fix_comments (commentsToNodesMap st) h = Inr (h', lg)"
    and "b_generate B h' (a_root ast) flowCode = Inr code"
    and "truthy opts" and "truthy (get_prop opts ''prettier'')"
    and "b_format B (code @ replicate (trailing_count (trailingLines st)) CHR ''\<newline>'') (prettier_options opts) = Inl e"
  shows "convert B flowCode opts = Inl e"
proof -
  have "regenerate (b_generate B) h' (a_root ast) flowCode (trailingLines st) =
      Inr (code @ replicate (trailing_count (trailingLines st)) CHR ''\<newline>'')"
    using assms(5) by (simp add: regenerate_Inr)
  then show ?thesis
    using assms by (simp add: convert_def build_index_located format_output_on)
qed

definition ex_fmt_fail :: backends where
  "ex_fmt_fail = ex_backends\<lparr>b_format := (\<lambda>code po. Inl (FormatterError ''SyntaxError: unexpected token''))\<rparr>"

definition ex_prettier :: jsval where
  "ex_prettier = JObj [(''prettier'', JBool True)]"

theorem convert_formatter_error_witness:
  "b_parse ex_fmt_fail ''a(); // note'' parseOptions = Inr ex_ast \<and> all_located (a_comments ex_ast) \<and>
   b_traverse ex_fmt_fail ex_ast (init_state ex_prettier (last_on_line (a_comments ex_ast))) =
     Inr (ex_heap, ex_walk_state\<lparr>options := [(''inlineUtilityTypes'', JBool False), (''prettier'', JBool True)],
                                 startLineToComments := last_on_line (a_comments ex_ast)\<rparr>) \<and>
   fix_comments (commentsToNodesMap ex_walk_state) ex_heap =
     Inr (ex_heap(1 := ex_a\<lparr>n_trailing := Some [ex_c1]\<rparr>), []) \<and>
   b_generate ex_fmt_fail (ex_heap(1 := ex_a\<lparr>n_trailing := Some [ex_c1]\<rparr>)) (a_root ex_ast) ''a(); // note'' = Inr ''a(); // note'' \<and>
   truthy ex_prettier \<and> truthy (get_prop ex_prettier ''prettier'') \<and>
   b_format ex_fmt_fail (''a(); // note'' @ replicate (trailing_count (trailingLines ex_walk_state)) CHR ''\<newline>'') (prettier_options ex_prettier) =
     Inl (FormatterError ''SyntaxError: unexpected token'') \<and>
   convert ex_fmt_fail ''a(); // note'' ex_prettier = Inl (FormatterError ''SyntaxError: unexpected token'')"
proof -
  let ?idx = "last_on_line (a_comments ex_ast)"
  let ?st = "ex_walk_state\<lparr>options := [(''inlineUtilityTypes'', JBool False), (''prettier'', JBool True)],
                           startLineToComments := ?idx\<rparr>"
  let ?h' = "ex_heap(1 := ex_a\<lparr>n_trailing := Some [ex_c1]\<rparr>)"
  have p: "b_parse ex_fmt_fail ''a(); // note'' parseOptions = Inr ex_ast"
    by (simp add: ex_fmt_fail_def ex_backends_def)
  have loc: "all_located (a_comments ex_ast)"
    by (simp add: ex_ast_def all_located_def ex_c1_def ex_c2_def)
  have t: "b_traverse ex_fmt_fail ex_ast (init_state ex_prettier ?idx) = Inr (ex_heap, ?st)"
    by (simp add: ex_fmt_fail_def ex_backends_def ex_ast_def ex_walk_def ex_walk_state_def init_state_def
        js_assign_def ex_prettier_def record_node_def record_leading_def record_trailing_def comments_of_def
        set_add_def ex_heap_def ex_a_def ex_b_def range_key_eq_iff ex_c1_def ex_c2_def)
  have f: "fix_comments (commentsToNodesMap ?st) ex_heap = Inr (?h', [])"
    using ex_fix by simp
  have g: "b_generate ex_fmt_fail ?h' (a_root ex_ast) ''a(); // note'' = Inr ''a(); // note''"
    by (simp add: ex_fmt_fail_def ex_backends_def)
  have on: "truthy ex_prettier" "truthy (get_prop ex_prettier ''prettier'')"
    by (simp_all add: ex_prettier_def)
  have fm: "b_format ex_fmt_fail (''a(); // note'' @ replicate (trailing_count (trailingLines ?st)) CHR ''\<newline>'') (prettier_options ex_prettier) =
     Inl (FormatterError ''SyntaxError: unexpected token'')"
    by (simp add: ex_fmt_fail_def)
  have "convert ex_fmt_fail ''a(); // note'' ex_prettier = Inl (FormatterError ''SyntaxError: unexpected token'')"
    using convert_formatter_error [OF p loc t f g on fm] .
  moreover have "b_format ex_fmt_fail (''a(); // note'' @ replicate (trailing_count (trailingLines ex_walk_state)) CHR ''\<newline>'') (prettier_options ex_prettier) =
     Inl (FormatterError ''SyntaxError: unexpected token'')"
    by (simp add: ex_fmt_fail_def)
  ultimately show ?thesis using p loc t ex_fix g on by simp
qed

text \<open>
  \<^bold>\<open>C32.\<close> \<open>convert\<close> observes the walk only through the heap, the contents of
  \<open>commentsToNodesMap\<close> and \<open>trailingLines\<close>: two walks that agree on these (with
  maps without duplicate keys) give the same output, whatever \<open>usedUtilityTypes\<close>,
  the state's options or the map's insertion order.  In particular the utility types a
  handler registers never reach the output through \<open>convert\<close>.
\<close>

theorem convert_observes_walk_result:
  assumes "b_parse B flowCode parseOptions = Inr ast"
    and "b_traverse B ast (init_state opts (last_on_line (a_comments ast))) = Inr (h, st1)"
    and "b_traverse B' ast (init_state opts (last_on_line (a_comments ast))) = Inr (h, st2)"
    and "b_parse B' = b_parse B" and "b_generate B' = b_generate B" and "b_format B' = b_format B"
    and "distinct (map fst (commentsToNodesMap st1))" and "distinct (map fst (commentsToNodesMap st2))"
    and "map_of (commentsToNodesMap st1) = map_of (commentsToNodesMap st2)"
    and "trailingLines st1 = trailingLines st2"
  shows "map_sum id fst (convert B flowCode opts) = map_sum id fst (convert B' flowCode opts)"
proof (cases "all_located (a_comments ast)")
  case True
  have fx: "map_sum id fst (fix_comments (commentsToNodesMap st1) h) =
      map_sum id fst (fix_comments (commentsToNodesMap st2) h)"
    using set_eq_map_of_eq [OF assms(7-9)] by (rule fix_comments_set_eq)
  show ?thesis
    using convert_fix_stage [OF fx] assms(1-6,10) True
    by (simp add: convert_def build_index_located)
next
  case False
  then have "build_index (a_comments ast) = Inl index_type_error" by (simp add: build_index_Inl)
  then show ?thesis using assms(1,4) by (simp add: convert_def)
qed

definition ex_walk_nu :: "event list" where
  "ex_walk_nu = [Visit 1, Visit 2, SetTrailingLines (JNum 2)]"

definition ex_backends_nu :: backends where
  "ex_backends_nu = ex_backends\<lparr>b_traverse := (\<lambda>ast st. run_driver ex_walk_nu (a_store ast, st))\<rparr>"

lemma ex_walk_nu_any: "run_driver ex_walk_nu (ex_heap, init_state JUndef idx) =
      Inr (ex_heap, ex_walk_state\<lparr>usedUtilityTypes := [], startLineToComments := idx\<rparr>)"
  by (simp add: ex_walk_nu_def ex_walk_state_def init_state_def js_assign_def record_node_def
      record_leading_def record_trailing_def comments_of_def ex_heap_def ex_a_def ex_b_def
      range_key_eq_iff ex_c1_def ex_c2_def)

theorem convert_observes_walk_result_witness:
  "b_parse ex_backends ''a(); // note'' parseOptions = Inr ex_ast \<and>
   b_traverse ex_backends ex_ast (init_state JUndef (last_on_line (a_comments ex_ast))) =
     Inr (ex_heap, ex_walk_state\<lparr>startLineToComments := last_on_line (a_comments ex_ast)\<rparr>) \<and>
   b_traverse ex_backends_nu ex_ast (init_state JUndef (last_on_line (a_comments ex_ast))) =
     Inr (ex_heap, ex_walk_state\<lparr>usedUtilityTypes := [], startLineToComments := last_on_line (a_comments ex_ast)\<rparr>) \<and>
   b_parse ex_backends_nu = b_parse ex_backends \<and> b_generate ex_backends_nu = b_generate ex_backends \<and>
   b_format ex_backends_nu = b_format ex_backends \<and>
   distinct (map fst (commentsToNodesMap ex_walk_state)) \<and>
   usedUtilityTypes ex_walk_state \<noteq> [] \<and>
   map_sum id fst (convert ex_backends ''a(); // note'' JUndef) = map_sum id fst (convert ex_backends_nu ''a(); // note'' JUndef)"
proof -
  let ?idx = "last_on_line (a_comments ex_ast)"
  have p: "b_parse ex_backends ''a(); // note'' parseOptions = Inr ex_ast" by (simp add: ex_backends_def)
  have t1: "b_traverse ex_backends ex_ast (init_state JUndef ?idx) =
     Inr (ex_heap, ex_walk_state\<lparr>startLineToComments := ?idx\<rparr>)"
    by (simp add: ex_backends_def ex_ast_def ex_walk_any)
  have t2: "b_traverse ex_backends_nu ex_ast (init_state JUndef ?idx) =
     Inr (ex_heap, ex_walk_state\<lparr>usedUtilityTypes := [], startLineToComments := ?idx\<rparr>)"
    by (simp add: ex_backends_nu_def ex_ast_def ex_walk_nu_any)
  have same: "b_parse ex_backends_nu = b_parse ex_backends" "b_generate ex_backends_nu = b_generate ex_backends"
    "b_format ex_backends_nu = b_format ex_backends"
    by (simp_all add: ex_backends_nu_def)
  have d: "distinct (map fst (commentsToNodesMap ex_walk_state))"
    by (simp add: ex_walk_state_def range_key_eq_iff ex_c1_def ex_c2_def)
  have u: "usedUtilityTypes ex_walk_state \<noteq> []" by (simp add: ex_walk_state_def)
  have "map_sum id fst (convert ex_backends ''a(); // note'' JUndef) = map_sum id fst (convert ex_backends_nu ''a(); // note'' JUndef)"
    using convert_observes_walk_result [OF p t1 t2 same] d by simp
  with p t1 t2 same d u show ?thesis by blast
qed

end
